theory Spec2Isabelle
  imports Complex_Main "HOL-Library.Multiset" "HOL-Library.Sublist"
begin

section \<open>JavaScript values\<close>

text \<open>
  The service handles payloads of type \<^verbatim>\<open>any\<close>: whatever the HTTP client parsed from the
  provider's JSON. A payload is therefore a JSON value, plus \<^verbatim>\<open>undefined\<close> for what a
  property read yields when the property is absent.

  A number is the exact value of a finite binary64, or one of the three non-finite
  values. Negative zero is identified with zero: every operation used here (truthiness,
  \<^verbatim>\<open>toFixed\<close>, conversion to a string, \<^verbatim>\<open>=== 0\<close>, the Date constructor) treats both alike.

  A string is the list of the bytes of its UTF-8 encoding. An object is the list of its own
  properties in creation order; a parsed JSON object has distinct keys.
\<close>

datatype jsnum = Fin rat | NaN | PosInf | NegInf

datatype jsval =
    JUndefined
  | JNull
  | JBool bool
  | JNum jsnum
  | JStr string
  | JArr "jsval list"
  | JObj "(string \<times> jsval) list"

section \<open>Errors\<close>

text \<open>
  \<^verbatim>\<open>HttpException(message, status)\<close> of the framework, the \<^verbatim>\<open>TypeError\<close> that the language
  raises on a property read from \<^verbatim>\<open>undefined\<close> or \<^verbatim>\<open>null\<close> and on a call of a non-function,
  and the error with which the HTTP client rejects a request that failed in transport or
  came back with a non-success status.
\<close>

datatype error = HttpException string nat | TypeError | AxiosError string

definition NOT_FOUND :: nat where
  "NOT_FOUND = 404"

definition INTERNAL_SERVER_ERROR :: nat where
  "INTERNAL_SERVER_ERROR = 500"

definition and_then :: "error + 'a \<Rightarrow> ('a \<Rightarrow> error + 'b) \<Rightarrow> error + 'b" where
  "and_then m f = (case m of Inl e \<Rightarrow> Inl e | Inr x \<Rightarrow> f x)"

fun sequence_err :: "(error + 'a) list \<Rightarrow> error + 'a list" where
  "sequence_err [] = Inr []"
| "sequence_err (m # ms) =
     (case m of
        Inl e \<Rightarrow> Inl e
      | Inr x \<Rightarrow> (case sequence_err ms of Inl e \<Rightarrow> Inl e | Inr xs \<Rightarrow> Inr (x # xs)))"

section \<open>The language runtime\<close>

text \<open>
  What the program takes from the runtime and the host, and what this development leaves
  open: the shortest round-trip rendering of a number that is not a small integer, the
  conversion of a string to a number, the rounded product of a number that is not a small
  integer with 1000, the host's time zone (the offset to add to a UTC instant to get local
  time, and the offset in force at a local instant), the parser of date strings (the
  provider's \<^verbatim>\<open>YYYY-MM-DD hh:mm:ss\<close> is outside the one format the language fixes), and the
  locale's rendering of a local wall-clock instant as date and time, and as date only.
  Instants are milliseconds since the epoch.
\<close>

record runtime =
  number_text :: "rat \<Rightarrow> string"
  string_number :: "string \<Rightarrow> jsnum"
  float_mul_1000 :: "rat \<Rightarrow> jsnum"
  tza_utc :: "int \<Rightarrow> int"
  tza_local :: "int \<Rightarrow> int"
  date_parse :: "string \<Rightarrow> int option"
  datetime_text :: "int \<Rightarrow> string"
  date_text :: "int \<Rightarrow> string"

section \<open>Coercions\<close>

text \<open>\<^verbatim>\<open>if (v)\<close>, \<^verbatim>\<open>!v\<close> and \<^verbatim>\<open>v || d\<close> test \<^verbatim>\<open>ToBoolean(v)\<close>.\<close>

fun truthy :: "jsval \<Rightarrow> bool" where
  "truthy JUndefined = False"
| "truthy JNull = False"
| "truthy (JBool b) = b"
| "truthy (JNum n) = (n \<noteq> NaN \<and> n \<noteq> Fin 0)"
| "truthy (JStr s) = (s \<noteq> [])"
| "truthy (JArr xs) = True"
| "truthy (JObj kvs) = True"

definition js_or :: "jsval \<Rightarrow> jsval \<Rightarrow> jsval" where
  "js_or v d = (if truthy v then v else d)"

definition digit_char :: "nat \<Rightarrow> char" where
  "digit_char d = ''0123456789'' ! d"

fun show_nat :: "nat \<Rightarrow> string" where
  "show_nat n =
     (if n < 10 then [digit_char n] else show_nat (n div 10) @ [digit_char (n mod 10)])"

declare show_nat.simps [simp del]

definition is_integral :: "rat \<Rightarrow> bool" where
  "is_integral x = (of_int \<lfloor>x\<rfloor> = x)"

text \<open>
  \<^verbatim>\<open>Number::toString\<close>: an integer below \<open>10\<^sup>2\<^sup>1\<close> in magnitude is written with all its
  digits; every other finite number is left to the runtime.
\<close>

definition number_to_string :: "runtime \<Rightarrow> jsnum \<Rightarrow> string" where
  "number_to_string rt n =
     (case n of
        NaN \<Rightarrow> ''NaN''
      | PosInf \<Rightarrow> ''Infinity''
      | NegInf \<Rightarrow> ''-Infinity''
      | Fin x \<Rightarrow>
          if is_integral x \<and> \<bar>x\<bar> < 10 ^ 21
          then (if x < 0 then ''-'' else []) @ show_nat (nat \<bar>\<lfloor>x\<rfloor>\<bar>)
          else number_text rt x)"

fun join_comma :: "string list \<Rightarrow> string" where
  "join_comma [] = ''''"
| "join_comma [s] = s"
| "join_comma (s # t # ss) = s @ '','' @ join_comma (t # ss)"

text \<open>
  \<^verbatim>\<open>ToString\<close>, as a template literal applies it. An array is joined with commas, an
  \<^verbatim>\<open>undefined\<close> or \<^verbatim>\<open>null\<close> element giving the empty string. An object takes the inherited
  \<^verbatim>\<open>toString\<close>, unless it has an own property of that name: a JSON value is never a
  function, the inherited \<^verbatim>\<open>valueOf\<close> returns the object itself, and the conversion raises.
\<close>

fun to_string :: "runtime \<Rightarrow> jsval \<Rightarrow> error + string" where
  "to_string rt JUndefined = Inr ''undefined''"
| "to_string rt JNull = Inr ''null''"
| "to_string rt (JBool b) = Inr (if b then ''true'' else ''false'')"
| "to_string rt (JNum n) = Inr (number_to_string rt n)"
| "to_string rt (JStr s) = Inr s"
| "to_string rt (JArr xs) =
     (case sequence_err
             (map (\<lambda>x. if x = JUndefined \<or> x = JNull then Inr [] else to_string rt x) xs) of
        Inl e \<Rightarrow> Inl e
      | Inr ss \<Rightarrow> Inr (join_comma ss))"
| "to_string rt (JObj kvs) =
     (if ''toString'' \<in> fst ` set kvs then Inl TypeError else Inr ''[object Object]'')"

text \<open>\<^verbatim>\<open>ToNumber\<close>; an array or an object goes through its string.\<close>

fun to_number :: "runtime \<Rightarrow> jsval \<Rightarrow> error + jsnum" where
  "to_number rt JUndefined = Inr NaN"
| "to_number rt JNull = Inr (Fin 0)"
| "to_number rt (JBool b) = Inr (Fin (if b then 1 else 0))"
| "to_number rt (JNum n) = Inr n"
| "to_number rt (JStr s) = Inr (string_number rt s)"
| "to_number rt v = and_then (to_string rt v) (\<lambda>s. Inr (string_number rt s))"

section \<open>Number formatting\<close>

text \<open>
  \<^verbatim>\<open>Number.prototype.toFixed(2)\<close>: a non-finite number and a number of magnitude \<open>10\<^sup>2\<^sup>1\<close> or
  more are rendered as \<^verbatim>\<open>ToString\<close> does; otherwise the integer \<open>n\<close> nearest to a hundred
  times the magnitude is taken (the larger one of two), written with at least three
  digits, and the point is put before the last two. The sign of a negative number is kept
  also when \<open>n\<close> is zero.
\<close>

definition toFixed_2 :: "runtime \<Rightarrow> jsnum \<Rightarrow> string" where
  "toFixed_2 rt n =
     (case n of
        Fin x \<Rightarrow>
          if \<bar>x\<bar> \<ge> 10 ^ 21 then number_to_string rt n
          else
            let m = show_nat (nat \<lfloor>\<bar>x\<bar> * 100 + 1 / 2\<rfloor>);
                m' = replicate (3 - length m) (CHR ''0'') @ m;
                k = length m' - 2
            in (if x < 0 then ''-'' else []) @ take k m' @ ''.'' @ drop k m'
      | _ \<Rightarrow> number_to_string rt n)"

text \<open>
  \<^verbatim>\<open>v.toFixed(2)\<close> for a payload value \<open>v\<close>: only a number has the method; reading it from
  \<^verbatim>\<open>undefined\<close> or \<^verbatim>\<open>null\<close> raises, and so does calling what any other JSON value has
  under that name.
\<close>

fun call_toFixed_2 :: "runtime \<Rightarrow> jsval \<Rightarrow> error + string" where
  "call_toFixed_2 rt (JNum n) = Inr (toFixed_2 rt n)"
| "call_toFixed_2 rt v = Inl TypeError"

section \<open>Property reads\<close>

definition obj_lookup :: "(string \<times> jsval) list \<Rightarrow> string \<Rightarrow> jsval" where
  "obj_lookup kvs k = (case map_of kvs k of None \<Rightarrow> JUndefined | Some v \<Rightarrow> v)"

text \<open>
  \<^verbatim>\<open>v.k\<close> and \<^verbatim>\<open>v["k"]\<close> for the property names that the program reads from payloads. None
  of them is an index, \<^verbatim>\<open>length\<close>, or a name that a prototype defines, so only an object
  can have the property.
\<close>

definition nullish :: "jsval \<Rightarrow> bool" where
  "nullish v = (v = JUndefined \<or> v = JNull)"

fun read_prop :: "jsval \<Rightarrow> string \<Rightarrow> jsval" where
  "read_prop (JObj kvs) k = obj_lookup kvs k"
| "read_prop v k = JUndefined"

definition get_prop :: "jsval \<Rightarrow> string \<Rightarrow> error + jsval" where
  "get_prop v k = (if nullish v then Inl TypeError else Inr (read_prop v k))"

text \<open>
  \<^verbatim>\<open>v[0]\<close>. Of a string it is the string of the first code unit; the program only reads
  named properties from it, which no string has.
\<close>

fun index_0 :: "jsval \<Rightarrow> error + jsval" where
  "index_0 JUndefined = Inl TypeError"
| "index_0 JNull = Inl TypeError"
| "index_0 (JArr xs) = Inr (case xs of [] \<Rightarrow> JUndefined | x # _ \<Rightarrow> x)"
| "index_0 (JObj kvs) = Inr (obj_lookup kvs ''0'')"
| "index_0 (JStr s) = Inr (case s of [] \<Rightarrow> JUndefined | c # _ \<Rightarrow> JStr [c])"
| "index_0 v = Inr JUndefined"

text \<open>\<^verbatim>\<open>v.length === 0\<close>.\<close>

fun length_is_0 :: "jsval \<Rightarrow> error + bool" where
  "length_is_0 JUndefined = Inl TypeError"
| "length_is_0 JNull = Inl TypeError"
| "length_is_0 (JArr xs) = Inr (xs = [])"
| "length_is_0 (JStr s) = Inr (s = [])"
| "length_is_0 (JObj kvs) = Inr (obj_lookup kvs ''length'' = JNum (Fin 0))"
| "length_is_0 v = Inr False"

text \<open>
  A destructuring pattern \<^verbatim>\<open>const { a, b = {} } = v\<close> raises when \<open>v\<close> is \<^verbatim>\<open>undefined\<close> or
  \<^verbatim>\<open>null\<close>; a default applies only to a property that reads as \<^verbatim>\<open>undefined\<close>.
\<close>

definition with_default :: "jsval \<Rightarrow> jsval \<Rightarrow> jsval" where
  "with_default v d = (if v = JUndefined then d else v)"

text \<open>
  An object literal: the properties are evaluated in order, and the first one to raise
  ends the evaluation.
\<close>

definition object_literal :: "(string \<times> (error + jsval)) list \<Rightarrow> error + jsval" where
  "object_literal ps =
     (case sequence_err (map snd ps) of
        Inl e \<Rightarrow> Inl e
      | Inr vs \<Rightarrow> Inr (JObj (zip (map fst ps) vs)))"

section \<open>Dates\<close>

definition msPerDay :: int where
  "msPerDay = 86400000"

definition msPerHour :: int where
  "msPerHour = 3600000"

definition msPerMinute :: int where
  "msPerMinute = 60000"

definition msPerSecond :: int where
  "msPerSecond = 1000"

definition Day :: "int \<Rightarrow> int" where
  "Day t = t div msPerDay"

definition HourFromTime :: "int \<Rightarrow> int" where
  "HourFromTime t = (t div msPerHour) mod 24"

definition MinFromTime :: "int \<Rightarrow> int" where
  "MinFromTime t = (t div msPerMinute) mod 60"

definition SecFromTime :: "int \<Rightarrow> int" where
  "SecFromTime t = (t div msPerSecond) mod 60"

definition msFromTime :: "int \<Rightarrow> int" where
  "msFromTime t = t mod msPerSecond"

definition MakeTime :: "int \<Rightarrow> int \<Rightarrow> int \<Rightarrow> int \<Rightarrow> int" where
  "MakeTime h m s milli = h * msPerHour + m * msPerMinute + s * msPerSecond + milli"

definition MakeDate :: "int \<Rightarrow> int \<Rightarrow> int" where
  "MakeDate day time = day * msPerDay + time"

definition LocalTime :: "runtime \<Rightarrow> int \<Rightarrow> int" where
  "LocalTime rt t = t + tza_utc rt t"

definition UTC :: "runtime \<Rightarrow> int \<Rightarrow> int" where
  "UTC rt t = t - tza_local rt t"

text \<open>
  A Date holds a time value: an instant within \<open>8.64 \<times> 10\<^sup>1\<^sup>5\<close> milliseconds of the epoch, or
  \<^verbatim>\<open>NaN\<close> (here \<open>None\<close>), the invalid date. \<^verbatim>\<open>TimeClip\<close> drops the fraction of a number in
  range and makes every other number the invalid date.
\<close>

definition TimeClip_int :: "int \<Rightarrow> int option" where
  "TimeClip_int t = (if \<bar>t\<bar> > 8640000000000000 then None else Some t)"

definition TimeClip :: "jsnum \<Rightarrow> int option" where
  "TimeClip n =
     (case n of
        Fin x \<Rightarrow>
          if \<bar>x\<bar> > 8640000000000000 then None
          else Some (if x \<ge> 0 then \<lfloor>x\<rfloor> else \<lceil>x\<rceil>)
      | _ \<Rightarrow> None)"

text \<open>
  \<^verbatim>\<open>n * 1000\<close>. The product of an integer is exact in binary64 as long as it stays within
  \<open>2\<^sup>5\<^sup>3\<close>; any other product is rounded, by the runtime.
\<close>

definition times_1000 :: "runtime \<Rightarrow> jsnum \<Rightarrow> jsnum" where
  "times_1000 rt n =
     (case n of
        Fin x \<Rightarrow>
          if is_integral x \<and> \<bar>x\<bar> * 1000 \<le> 2 ^ 53 then Fin (x * 1000)
          else float_mul_1000 rt x
      | _ \<Rightarrow> n)"

text \<open>
  \<^verbatim>\<open>new Date(v)\<close>: a string is parsed; an array or an object is parsed through its string;
  any other value is converted to a number and clipped.
\<close>

fun new_Date :: "runtime \<Rightarrow> jsval \<Rightarrow> error + int option" where
  "new_Date rt (JStr s) = Inr (date_parse rt s)"
| "new_Date rt (JArr xs) = and_then (to_string rt (JArr xs)) (\<lambda>s. Inr (date_parse rt s))"
| "new_Date rt (JObj kvs) = and_then (to_string rt (JObj kvs)) (\<lambda>s. Inr (date_parse rt s))"
| "new_Date rt v = and_then (to_number rt v) (\<lambda>n. Inr (TimeClip n))"

definition getHours :: "runtime \<Rightarrow> int option \<Rightarrow> int option" where
  "getHours rt d = map_option (\<lambda>t. HourFromTime (LocalTime rt t)) d"

text \<open>
  \<^verbatim>\<open>setHours(h)\<close> replaces the hour of the local time and converts back; an hour beyond 23
  carries into the day. On the invalid date, or with \<^verbatim>\<open>NaN\<close> for the hour, the date is
  invalid afterwards.
\<close>

definition setHours :: "runtime \<Rightarrow> int option \<Rightarrow> int option \<Rightarrow> int option" where
  "setHours rt d hour =
     (case (d, hour) of
        (Some t, Some h) \<Rightarrow>
          let tl = LocalTime rt t;
              date = MakeDate (Day tl)
                       (MakeTime h (MinFromTime tl) (SecFromTime tl) (msFromTime tl))
          in TimeClip_int (UTC rt date)
      | _ \<Rightarrow> None)"

definition toLocaleString :: "runtime \<Rightarrow> int option \<Rightarrow> string" where
  "toLocaleString rt d =
     (case d of None \<Rightarrow> ''Invalid Date'' | Some t \<Rightarrow> datetime_text rt (LocalTime rt t))"

definition toLocaleDateString :: "runtime \<Rightarrow> int option \<Rightarrow> string" where
  "toLocaleDateString rt d =
     (case d of None \<Rightarrow> ''Invalid Date'' | Some t \<Rightarrow> date_text rt (LocalTime rt t))"

section \<open>The formatter\<close>

text \<open>
  \<^verbatim>\<open>formatUnixTime(timestamp)\<close>:
  \<^verbatim>\<open>date = new Date(timestamp * 1000); date.setHours(date.getHours() + 9); return date.toLocaleString()\<close>.
\<close>

definition formatUnixTime :: "runtime \<Rightarrow> jsval \<Rightarrow> error + string" where
  "formatUnixTime rt timestamp =
     and_then (to_number rt timestamp) (\<lambda>n.
       let date = TimeClip (times_1000 rt n);
           date' = setHours rt date (map_option (\<lambda>h. h + 9) (getHours rt date))
       in Inr (toLocaleString rt date'))"

definition celsius :: string where
  "celsius = [CHR 0xE2, CHR 0x84, CHR 0x83]"

definition str_field :: "error + string \<Rightarrow> error + jsval" where
  "str_field m = and_then m (\<lambda>s. Inr (JStr s))"

text \<open>\<^verbatim>\<open>`${o.k.toFixed(2)}suffix`\<close>\<close>

definition fixed_field :: "runtime \<Rightarrow> jsval \<Rightarrow> string \<Rightarrow> string \<Rightarrow> error + jsval" where
  "fixed_field rt ob k sfx =
     str_field (and_then (and_then (get_prop ob k) (call_toFixed_2 rt)) (\<lambda>s. Inr (s @ sfx)))"

text \<open>\<^verbatim>\<open>`${o.k}suffix`\<close>\<close>

definition text_field :: "runtime \<Rightarrow> jsval \<Rightarrow> string \<Rightarrow> string \<Rightarrow> error + jsval" where
  "text_field rt ob k sfx =
     str_field (and_then (and_then (get_prop ob k) (to_string rt)) (\<lambda>s. Inr (s @ sfx)))"

text \<open>\<^verbatim>\<open>`${o["1h"] || 0}mm/h`\<close>\<close>

definition rate_field :: "runtime \<Rightarrow> jsval \<Rightarrow> error + jsval" where
  "rate_field rt ob =
     str_field (and_then (and_then (get_prop ob ''1h'')
        (\<lambda>v. to_string rt (js_or v (JNum (Fin 0))))) (\<lambda>s. Inr (s @ ''mm/h'')))"

text \<open>\<^verbatim>\<open>weather[0].k\<close>\<close>

definition condition_field :: "jsval \<Rightarrow> string \<Rightarrow> error + jsval" where
  "condition_field weather k = and_then (index_0 weather) (\<lambda>w. get_prop w k)"

text \<open>
  The properties of the object literal that \<^verbatim>\<open>formatWeatherData\<close> returns, after
  \<^verbatim>\<open>const { weather, main, wind, rain = {}, snow = {}, sys } = data\<close>.
\<close>

definition report_properties :: "runtime \<Rightarrow> jsval \<Rightarrow> (string \<times> (error + jsval)) list" where
  "report_properties rt data =
     (let weather = read_prop data ''weather'';
          main = read_prop data ''main'';
          wind = read_prop data ''wind'';
          rain = with_default (read_prop data ''rain'') (JObj []);
          snow = with_default (read_prop data ''snow'') (JObj []);
          sys = read_prop data ''sys''
      in [(''weatherStatus'', condition_field weather ''main''),
          (''detailWeatherStatus'', condition_field weather ''description''),
          (''currentTemp'', fixed_field rt main ''temp'' celsius),
          (''apparentTemp'', fixed_field rt main ''feels_like'' celsius),
          (''currentHumi'', text_field rt main ''humidity'' ''%''),
          (''minTemp'', fixed_field rt main ''temp_min'' celsius),
          (''maxTemp'', fixed_field rt main ''temp_max'' celsius),
          (''windSpeed'', fixed_field rt wind ''speed'' ''m/s''),
          (''rainfall'', rate_field rt rain),
          (''snowfall'', rate_field rt snow),
          (''sunriseTime'', str_field (and_then (get_prop sys ''sunrise'') (formatUnixTime rt))),
          (''sunsetTime'', str_field (and_then (get_prop sys ''sunset'') (formatUnixTime rt))),
          (''icon'', condition_field weather ''icon'')])"

definition formatWeatherData :: "runtime \<Rightarrow> jsval \<Rightarrow> error + jsval" where
  "formatWeatherData rt data =
     (if nullish data then Inl TypeError else object_literal (report_properties rt data))"

text \<open>
  The properties of the object literal that \<^verbatim>\<open>formatForecastData\<close> returns, after
  \<^verbatim>\<open>const { weather, main, wind, rain = {}, snow = {}, dt_txt } = item\<close>.
\<close>

definition entry_properties :: "runtime \<Rightarrow> jsval \<Rightarrow> (string \<times> (error + jsval)) list" where
  "entry_properties rt item =
     (let weather = read_prop item ''weather'';
          main = read_prop item ''main'';
          wind = read_prop item ''wind'';
          rain = with_default (read_prop item ''rain'') (JObj []);
          snow = with_default (read_prop item ''snow'') (JObj []);
          dt_txt = read_prop item ''dt_txt''
      in [(''forecastTime'',
             str_field (and_then (new_Date rt dt_txt) (\<lambda>d. Inr (toLocaleString rt d)))),
          (''weatherStatus'', condition_field weather ''main''),
          (''detailWeatherStatus'', condition_field weather ''description''),
          (''currentTemp'', fixed_field rt main ''temp'' celsius),
          (''apparentTemp'', fixed_field rt main ''feels_like'' celsius),
          (''currentHumi'', text_field rt main ''humidity'' ''%''),
          (''minTemp'', fixed_field rt main ''temp_min'' celsius),
          (''maxTemp'', fixed_field rt main ''temp_max'' celsius),
          (''windSpeed'', fixed_field rt wind ''speed'' ''m/s''),
          (''rainfall'', rate_field rt rain),
          (''snowfall'', rate_field rt snow),
          (''icon'', condition_field weather ''icon'')])"

definition formatForecastData :: "runtime \<Rightarrow> jsval \<Rightarrow> error + jsval" where
  "formatForecastData rt item =
     (if nullish item then Inl TypeError else object_literal (entry_properties rt item))"

section \<open>The forecast grouper\<close>

text \<open>
  The accumulator of the reduction is an object created by \<^verbatim>\<open>{}\<close>, whose properties are
  arrays. It is kept as the list of its own properties in creation order.

  \<^verbatim>\<open>acc[k]\<close> also finds what the accumulator inherits: under one of the names below it is
  a member of \<^verbatim>\<open>Object.prototype\<close>, which is truthy and has no \<^verbatim>\<open>push\<close>.
\<close>

definition object_prototype_names :: "string list" where
  "object_prototype_names =
     [''constructor'', ''__defineGetter__'', ''__defineSetter__'', ''hasOwnProperty'',
      ''__lookupGetter__'', ''__lookupSetter__'', ''isPrototypeOf'', ''propertyIsEnumerable'',
      ''toString'', ''valueOf'', ''__proto__'', ''toLocaleString'']"

text \<open>
  The properties of an object are enumerated, and serialised, with the array indices first,
  in ascending order, and the other names after them in creation order. An array index is
  the canonical decimal string of an integer below \<open>2\<^sup>3\<^sup>2 - 1\<close>.
\<close>

definition digits_value :: "string \<Rightarrow> nat" where
  "digits_value s = foldl (\<lambda>n c. 10 * n + (of_char c - 48)) 0 s"

definition is_array_index :: "string \<Rightarrow> bool" where
  "is_array_index s =
     (s \<noteq> [] \<and> list_all (\<lambda>c. c \<in> set ''0123456789'') s
      \<and> (hd s \<noteq> CHR ''0'' \<or> s = ''0'') \<and> digits_value s < 4294967295)"

definition own_property_order :: "(string \<times> 'a) list \<Rightarrow> (string \<times> 'a) list" where
  "own_property_order kvs =
     sort_key (\<lambda>kv. digits_value (fst kv)) (filter (\<lambda>kv. is_array_index (fst kv)) kvs)
     @ filter (\<lambda>kv. \<not> is_array_index (fst kv)) kvs"

definition has_key :: "(string \<times> 'a) list \<Rightarrow> string \<Rightarrow> bool" where
  "has_key kvs k = (k \<in> set (map fst kvs))"

text \<open>\<^verbatim>\<open>acc[k].push(e)\<close> for an own property \<open>k\<close>.\<close>

definition push_to :: "(string \<times> jsval list) list \<Rightarrow> string \<Rightarrow> jsval \<Rightarrow> (string \<times> jsval list) list" where
  "push_to acc k e = map (\<lambda>kv. if fst kv = k then (fst kv, snd kv @ [e]) else kv) acc"

text \<open>\<^verbatim>\<open>new Date(curr.dt_txt).toLocaleDateString()\<close>\<close>

definition forecastDate :: "runtime \<Rightarrow> jsval \<Rightarrow> error + string" where
  "forecastDate rt cur =
     and_then (get_prop cur ''dt_txt'') (\<lambda>dt.
       and_then (new_Date rt dt) (\<lambda>d. Inr (toLocaleDateString rt d)))"

text \<open>\<^verbatim>\<open>if (!acc[k]) { acc[k] = []; }  acc[k].push(e);\<close> for a name \<open>k\<close> that is not inherited.\<close>

definition add_entry ::
  "(string \<times> jsval list) list \<Rightarrow> string \<Rightarrow> jsval \<Rightarrow> (string \<times> jsval list) list" where
  "add_entry acc k e = push_to (if \<not> has_key acc k then acc @ [(k, [])] else acc) k e"

text \<open>The callback of the reduction.\<close>

definition group_step ::
  "runtime \<Rightarrow> (string \<times> jsval list) list \<Rightarrow> jsval \<Rightarrow> error + (string \<times> jsval list) list" where
  "group_step rt acc cur =
     and_then (forecastDate rt cur) (\<lambda>k.
       if k \<in> set object_prototype_names then Inl TypeError
       else and_then (formatForecastData rt cur) (\<lambda>e. Inr (add_entry acc k e)))"

fun reduce_err :: "('b \<Rightarrow> 'a \<Rightarrow> error + 'b) \<Rightarrow> 'a list \<Rightarrow> 'b \<Rightarrow> error + 'b" where
  "reduce_err f [] acc = Inr acc"
| "reduce_err f (x # xs) acc = and_then (f acc x) (reduce_err f xs)"

text \<open>
  \<^verbatim>\<open>forecastData.reduce(callback, {})\<close>: only an array has \<^verbatim>\<open>reduce\<close>. The result is the
  accumulator, as an object.
\<close>

definition grouped_object :: "(string \<times> jsval list) list \<Rightarrow> jsval" where
  "grouped_object acc = JObj (own_property_order (map (\<lambda>kv. (fst kv, JArr (snd kv))) acc))"

fun groupForecastByDate :: "runtime \<Rightarrow> jsval \<Rightarrow> error + jsval" where
  "groupForecastByDate rt (JArr forecastData) =
     and_then (reduce_err (group_step rt) forecastData []) (\<lambda>acc. Inr (grouped_object acc))"
| "groupForecastByDate rt v = Inl TypeError"

section \<open>The cache store\<close>

text \<open>
  The cache manager is a collaborator of the service, used through \<^verbatim>\<open>get(key)\<close> and
  \<^verbatim>\<open>set(key, value, ttl)\<close>. An entry is a value with the instant at which it expires; \<^verbatim>\<open>get\<close>
  yields \<^verbatim>\<open>undefined\<close> for a key without a live entry. Eviction for capacity is not
  modelled.
\<close>

type_synonym cache_store = "string \<rightharpoonup> jsval \<times> nat"

definition cacheTTL :: nat where
  "cacheTTL = 300"

definition cache_get :: "cache_store \<Rightarrow> string \<Rightarrow> nat \<Rightarrow> jsval" where
  "cache_get c k now =
     (case c k of None \<Rightarrow> JUndefined | Some (v, ex) \<Rightarrow> if now < ex then v else JUndefined)"

definition cache_set :: "cache_store \<Rightarrow> string \<Rightarrow> jsval \<Rightarrow> nat \<Rightarrow> nat \<Rightarrow> cache_store" where
  "cache_set c k v ttl now = c(k \<mapsto> (v, now + ttl))"

section \<open>The upstream provider\<close>

text \<open>
  A request is one of the three URLs that the service builds; the URL is determined by the
  endpoint and by the values put into it, which the model keeps. The provider answers a
  request with a payload, or the HTTP client rejects it (transport failure, non-success
  status).
\<close>

datatype request = Geocode string | Current jsval jsval | Forecast jsval jsval

datatype http_result = Rejected string | Response jsval

type_synonym upstream = "request \<Rightarrow> http_result"

text \<open>
  The state that a call can change: the cache, the requests sent so far, and what was
  written to the console.
\<close>

record world =
  cache :: cache_store
  requests :: "request list"
  console :: "error list"

definition httpService_get :: "upstream \<Rightarrow> request \<Rightarrow> world \<Rightarrow> http_result \<times> world" where
  "httpService_get up req w = (up req, w\<lparr>requests := requests w @ [req]\<rparr>)"

section \<open>The service\<close>

definition city_info_not_found :: string where
  "city_info_not_found =
     [CHR 0xEB, CHR 0x8F, CHR 0x84, CHR 0xEC, CHR 0x8B, CHR 0x9C, CHR 0x20, CHR 0xEC, CHR 0xA0,
      CHR 0x95, CHR 0xEB, CHR 0xB3, CHR 0xB4, CHR 0xEB, CHR 0xA5, CHR 0xBC, CHR 0x20, CHR 0xEC,
      CHR 0xB0, CHR 0xBE, CHR 0xEC, CHR 0x9D, CHR 0x84, CHR 0x20, CHR 0xEC, CHR 0x88, CHR 0x98,
      CHR 0x20, CHR 0xEC, CHR 0x97, CHR 0x86, CHR 0xEC, CHR 0x8A, CHR 0xB5, CHR 0xEB, CHR 0x8B,
      CHR 0x88, CHR 0xEB, CHR 0x8B, CHR 0xA4, CHR 0x2E]"

text \<open>
  \<^verbatim>\<open>getCoordinatesByCity\<close>: the request is not guarded, so a rejection reaches the caller
  as it is. \<^verbatim>\<open>const { lat, lon } = data[0]\<close> raises when there is no first element.
\<close>

definition getCoordinatesByCity ::
  "upstream \<Rightarrow> string \<Rightarrow> world \<Rightarrow> (error + jsval \<times> jsval) \<times> world" where
  "getCoordinatesByCity up city w =
     (case httpService_get up (Geocode city) w of
        (Rejected m, w') \<Rightarrow> (Inl (AxiosError m), w')
      | (Response data, w') \<Rightarrow>
          (and_then (length_is_0 data) (\<lambda>empty.
             if empty then Inl (HttpException city_info_not_found NOT_FOUND)
             else and_then (index_0 data) (\<lambda>first.
               if nullish first then Inl TypeError
               else Inr (read_prop first ''lat'', read_prop first ''lon''))),
           w'))"

text \<open>
  \<^verbatim>\<open>fetchWeatherData\<close>: a rejection is written to the console and replaced by an
  \<^verbatim>\<open>HttpException\<close>. The result is the payload of the response.
\<close>

definition fetchWeatherData :: "upstream \<Rightarrow> request \<Rightarrow> world \<Rightarrow> (error + jsval) \<times> world" where
  "fetchWeatherData up req w =
     (case httpService_get up req w of
        (Rejected m, w') \<Rightarrow>
          (Inl (HttpException ''City not found'' NOT_FOUND),
           w'\<lparr>console := console w' @ [AxiosError m]\<rparr>)
      | (Response data, w') \<Rightarrow> (Inr data, w'))"

text \<open>\<^verbatim>\<open>try { body } catch (error) { throw e }\<close>: whatever the body raises is replaced by \<open>e\<close>.\<close>

definition catch_rethrow :: "(error + 'a) \<times> world \<Rightarrow> error \<Rightarrow> (error + 'a) \<times> world" where
  "catch_rethrow r e = (case r of (Inl _, w) \<Rightarrow> (Inl e, w) | (Inr x, w) \<Rightarrow> (Inr x, w))"

text \<open>
  The tail shared by the two bodies: format, and on success store the result under the key
  and return it.
\<close>

definition store_result ::
  "string \<Rightarrow> nat \<Rightarrow> error + jsval \<Rightarrow> world \<Rightarrow> (error + jsval) \<times> world" where
  "store_result cacheKey now r w =
     (case r of
        Inl e \<Rightarrow> (Inl e, w)
      | Inr v \<Rightarrow> (Inr v, w\<lparr>cache := cache_set (cache w) cacheKey v cacheTTL now\<rparr>))"

definition getWeatherByCity ::
  "runtime \<Rightarrow> upstream \<Rightarrow> string \<Rightarrow> nat \<Rightarrow> world \<Rightarrow> (error + jsval) \<times> world" where
  "getWeatherByCity rt up city now w =
     (let cacheKey = ''weather_'' @ city;
          cachedWeather = cache_get (cache w) cacheKey now
      in if truthy cachedWeather then (Inr cachedWeather, w)
         else
           case getCoordinatesByCity up city w of
             (Inl e, w1) \<Rightarrow> (Inl e, w1)
           | (Inr (lat, lon), w1) \<Rightarrow>
               catch_rethrow
                 (case fetchWeatherData up (Current lat lon) w1 of
                    (Inl e, w2) \<Rightarrow> (Inl e, w2)
                  | (Inr data, w2) \<Rightarrow>
                      store_result cacheKey now (formatWeatherData rt data) w2)
                 (HttpException ''Failed to fetch weather data'' INTERNAL_SERVER_ERROR))"

definition getFiveDayForecast ::
  "runtime \<Rightarrow> upstream \<Rightarrow> string \<Rightarrow> nat \<Rightarrow> world \<Rightarrow> (error + jsval) \<times> world" where
  "getFiveDayForecast rt up city now w =
     (let cacheKey = ''forecast_'' @ city;
          cachedForecast = cache_get (cache w) cacheKey now
      in if truthy cachedForecast then (Inr cachedForecast, w)
         else
           case getCoordinatesByCity up city w of
             (Inl e, w1) \<Rightarrow> (Inl e, w1)
           | (Inr (lat, lon), w1) \<Rightarrow>
               catch_rethrow
                 (case fetchWeatherData up (Forecast lat lon) w1 of
                    (Inl e, w2) \<Rightarrow> (Inl e, w2)
                  | (Inr data, w2) \<Rightarrow>
                      store_result cacheKey now
                        (and_then (get_prop data ''list'') (groupForecastByDate rt)) w2)
                 (HttpException ''Failed to fetch forecast data'' INTERNAL_SERVER_ERROR))"

section \<open>A host for the examples\<close>

text \<open>
  A host with a time zone at a fixed offset from UTC and the locale \<^verbatim>\<open>en-GB\<close>, which
  renders a date as \<^verbatim>\<open>DD/MM/YYYY\<close> and a time on the 24-hour clock. Its parser reads the
  provider's \<^verbatim>\<open>YYYY-MM-DD hh:mm:ss\<close> as local time. A number is rendered by its decimal
  expansion, which is what \<^verbatim>\<open>Number::toString\<close> gives for a binary64 of at most 15
  significant digits between \<open>10\<^sup>-\<^sup>6\<close> and \<open>10\<^sup>2\<^sup>1\<close>; a string of digits converts to its value; the
  product with 1000 is given unrounded. The examples stay within these domains.
\<close>

definition pad2 :: "nat \<Rightarrow> string" where
  "pad2 n = (if n < 10 then ''0'' @ show_nat n else show_nat n)"

definition civil_from_days :: "int \<Rightarrow> int \<times> int \<times> int" where
  "civil_from_days z =
     (let z' = z + 719468;
          era = z' div 146097;
          doe = z' mod 146097;
          yoe = (doe - doe div 1460 + doe div 36524 - doe div 146096) div 365;
          doy = doe - (365 * yoe + yoe div 4 - yoe div 100);
          mp = (5 * doy + 2) div 153;
          d = doy - (153 * mp + 2) div 5 + 1;
          m = (if mp < 10 then mp + 3 else mp - 9);
          y = yoe + era * 400
      in (if m \<le> 2 then y + 1 else y, m, d))"

definition days_from_civil :: "int \<Rightarrow> int \<Rightarrow> int \<Rightarrow> int" where
  "days_from_civil y m d =
     (let y' = (if m \<le> 2 then y - 1 else y);
          era = y' div 400;
          yoe = y' mod 400;
          doy = (153 * (if m > 2 then m - 3 else m + 9) + 2) div 5 + d - 1;
          doe = yoe * 365 + yoe div 4 - yoe div 100 + doy
      in era * 146097 + doe - 719468)"

definition en_GB_date :: "int \<Rightarrow> string" where
  "en_GB_date t =
     (case civil_from_days (Day t) of
        (y, m, d) \<Rightarrow> pad2 (nat d) @ ''/'' @ pad2 (nat m) @ ''/'' @ show_nat (nat y))"

definition en_GB_datetime :: "int \<Rightarrow> string" where
  "en_GB_datetime t =
     en_GB_date t @ '', '' @ pad2 (nat (HourFromTime t)) @ '':'' @ pad2 (nat (MinFromTime t))
       @ '':'' @ pad2 (nat (SecFromTime t))"

definition all_digits :: "string \<Rightarrow> bool" where
  "all_digits s = list_all (\<lambda>c. c \<in> set ''0123456789'') s"

definition parse_local_datetime :: "int \<Rightarrow> string \<Rightarrow> int option" where
  "parse_local_datetime offset s =
     (if length s = 19
         \<and> all_digits (take 4 s) \<and> s ! 4 = CHR ''-'' \<and> all_digits (take 2 (drop 5 s))
         \<and> s ! 7 = CHR ''-'' \<and> all_digits (take 2 (drop 8 s)) \<and> s ! 10 = CHR '' ''
         \<and> all_digits (take 2 (drop 11 s)) \<and> s ! 13 = CHR '':''
         \<and> all_digits (take 2 (drop 14 s)) \<and> s ! 16 = CHR '':''
         \<and> all_digits (take 2 (drop 17 s))
      then
        let num = (\<lambda>i n. int (digits_value (take n (drop i s))))
        in TimeClip_int
             (MakeDate (days_from_civil (num 0 4) (num 5 2) (num 8 2))
                (MakeTime (num 11 2) (num 14 2) (num 17 2) 0) - offset)
      else None)"

fun frac_digits :: "nat \<Rightarrow> nat \<Rightarrow> nat \<Rightarrow> string" where
  "frac_digits 0 r q = []"
| "frac_digits (Suc fuel) r q =
     (if r = 0 then [] else digit_char (r * 10 div q) # frac_digits fuel (r * 10 mod q) q)"

definition decimal_text :: "rat \<Rightarrow> string" where
  "decimal_text x =
     (case quotient_of \<bar>x\<bar> of
        (p, q) \<Rightarrow>
          (if x < 0 then ''-'' else []) @ show_nat (nat p div nat q)
          @ (if nat p mod nat q = 0 then [] else ''.'' @ frac_digits 17 (nat p mod nat q) (nat q)))"

definition host :: "int \<Rightarrow> runtime" where
  "host offset =
     \<lparr> number_text = decimal_text,
       string_number = (\<lambda>s. if s \<noteq> [] \<and> all_digits s then Fin (of_nat (digits_value s)) else NaN),
       float_mul_1000 = (\<lambda>x. Fin (x * 1000)),
       tza_utc = (\<lambda>t. offset),
       tza_local = (\<lambda>t. offset),
       date_parse = parse_local_datetime offset,
       datetime_text = en_GB_datetime,
       date_text = en_GB_date \<rparr>"

definition host_utc :: runtime where
  "host_utc = host 0"

definition host_seoul :: runtime where
  "host_seoul = host (9 * msPerHour)"

section \<open>Example data\<close>

text \<open>
  The scenario of the specification: Seoul at (37.5665, 126.9780), a current temperature of
  21.456 and a humidity of 60, no rain and no snow. The three decimal fractions are given
  by the binary64 nearest to each.
\<close>

definition empty_world :: world where
  "empty_world = \<lparr> cache = Map.empty, requests = [], console = [] \<rparr>"

definition seoul_lat :: jsval where
  "seoul_lat = JNum (Fin (5287014856300429 / 2 ^ 47))"

definition seoul_lon :: jsval where
  "seoul_lon = JNum (Fin (8935282398191419 / 2 ^ 46))"

definition seoul_geocode :: jsval where
  "seoul_geocode =
     JArr [JObj [(''name'', JStr ''Seoul''), (''lat'', seoul_lat), (''lon'', seoul_lon),
                 (''country'', JStr ''KR'')]]"

definition seoul_current :: jsval where
  "seoul_current =
     JObj
      [(''weather'',
          JArr [JObj [(''id'', JNum (Fin 800)), (''main'', JStr ''Clear''),
                      (''description'', JStr ''clear sky''), (''icon'', JStr ''01d'')]]),
       (''main'',
          JObj [(''temp'', JNum (Fin (6039327100303835 / 2 ^ 48))),
                (''feels_like'', JNum (Fin 21)), (''temp_min'', JNum (Fin (39 / 2))),
                (''temp_max'', JNum (Fin (93 / 4))), (''humidity'', JNum (Fin 60))]),
       (''wind'', JObj [(''speed'', JNum (Fin (7 / 2)))]),
       (''sys'', JObj [(''sunrise'', JNum (Fin 1714510800)), (''sunset'', JNum (Fin 1714559000))])]"

definition forecast_item :: "string \<Rightarrow> rat \<Rightarrow> jsval" where
  "forecast_item dt temp =
     JObj
      [(''dt_txt'', JStr dt),
       (''weather'',
          JArr [JObj [(''main'', JStr ''Rain''), (''description'', JStr ''light rain''),
                      (''icon'', JStr ''10d'')]]),
       (''main'',
          JObj [(''temp'', JNum (Fin temp)), (''feels_like'', JNum (Fin temp)),
                (''temp_min'', JNum (Fin temp)), (''temp_max'', JNum (Fin temp)),
                (''humidity'', JNum (Fin 80))]),
       (''wind'', JObj [(''speed'', JNum (Fin 2))]),
       (''rain'', JObj [(''1h'', JNum (Fin (1 / 2)))])]"

text \<open>Two entries dated 2024-05-01 and one dated 2024-05-02.\<close>

definition seoul_forecast_list :: "jsval list" where
  "seoul_forecast_list =
     [forecast_item ''2024-05-01 12:00:00'' 18, forecast_item ''2024-05-01 15:00:00'' 19,
      forecast_item ''2024-05-02 00:00:00'' 15]"

definition seoul_forecast :: jsval where
  "seoul_forecast = JObj [(''cod'', JStr ''200''), (''list'', JArr seoul_forecast_list)]"

text \<open>
  A provider that knows Seoul only, and the same provider with the weather endpoints out of
  service.
\<close>

fun provider :: upstream where
  "provider (Geocode city) = Response (if city = ''Seoul'' then seoul_geocode else JArr [])"
| "provider (Current lat lon) = Response seoul_current"
| "provider (Forecast lat lon) = Response seoul_forecast"

fun provider_down :: upstream where
  "provider_down (Geocode city) = provider (Geocode city)"
| "provider_down req = Rejected ''ECONNRESET''"




definition seoul_asked :: world where
  "seoul_asked = empty_world\<lparr>requests := [Geocode ''Seoul'']\<rparr>"




text \<open>
  The report and the grouped forecast that the formatter and the grouper give for the
  payloads above on a host in UTC.
\<close>

definition seoul_report :: jsval where
  "seoul_report =
     JObj
      [(''weatherStatus'', JStr ''Clear''), (''detailWeatherStatus'', JStr ''clear sky''),
       (''currentTemp'', JStr (''21.46'' @ celsius)), (''apparentTemp'', JStr (''21.00'' @ celsius)),
       (''currentHumi'', JStr ''60%''), (''minTemp'', JStr (''19.50'' @ celsius)),
       (''maxTemp'', JStr (''23.25'' @ celsius)), (''windSpeed'', JStr ''3.50m/s''),
       (''rainfall'', JStr ''0mm/h''), (''snowfall'', JStr ''0mm/h''),
       (''sunriseTime'', JStr ''01/05/2024, 06:00:00''),
       (''sunsetTime'', JStr ''01/05/2024, 19:23:20''), (''icon'', JStr ''01d'')]"

definition forecast_entry :: "string \<Rightarrow> string \<Rightarrow> jsval" where
  "forecast_entry time temp =
     JObj
      [(''forecastTime'', JStr time), (''weatherStatus'', JStr ''Rain''),
       (''detailWeatherStatus'', JStr ''light rain''), (''currentTemp'', JStr (temp @ celsius)),
       (''apparentTemp'', JStr (temp @ celsius)), (''currentHumi'', JStr ''80%''),
       (''minTemp'', JStr (temp @ celsius)), (''maxTemp'', JStr (temp @ celsius)),
       (''windSpeed'', JStr ''2.00m/s''), (''rainfall'', JStr ''0.5mm/h''),
       (''snowfall'', JStr ''0mm/h''), (''icon'', JStr ''10d'')]"

definition seoul_entries :: "jsval list" where
  "seoul_entries =
     [forecast_entry ''01/05/2024, 12:00:00'' ''18.00'',
      forecast_entry ''01/05/2024, 15:00:00'' ''19.00'',
      forecast_entry ''02/05/2024, 00:00:00'' ''15.00'']"

definition seoul_dates :: "string list" where
  "seoul_dates = [''01/05/2024'', ''01/05/2024'', ''02/05/2024'']"

definition seoul_grouped :: jsval where
  "seoul_grouped =
     JObj
      [(''01/05/2024'',
          JArr [forecast_entry ''01/05/2024, 12:00:00'' ''18.00'',
                forecast_entry ''01/05/2024, 15:00:00'' ''19.00'']),
       (''02/05/2024'', JArr [forecast_entry ''02/05/2024, 00:00:00'' ''15.00''])]"

text \<open>The states after a first call for Seoul at instant 0.\<close>

definition seoul_weather_cached :: world where
  "seoul_weather_cached =
     \<lparr> cache = [''weather_Seoul'' \<mapsto> (seoul_report, 300)],
       requests = [Geocode ''Seoul'', Current seoul_lat seoul_lon], console = [] \<rparr>"

definition seoul_forecast_cached :: world where
  "seoul_forecast_cached =
     \<lparr> cache = [''forecast_Seoul'' \<mapsto> (seoul_grouped, 300)],
       requests = [Geocode ''Seoul'', Forecast seoul_lat seoul_lon], console = [] \<rparr>"

text \<open>The state after a call for the forecast of Seoul at instant 10 that follows.\<close>

definition seoul_both_cached :: world where
  "seoul_both_cached =
     \<lparr> cache =
         [''weather_Seoul'' \<mapsto> (seoul_report, 300), ''forecast_Seoul'' \<mapsto> (seoul_grouped, 310)],
       requests =
         [Geocode ''Seoul'', Current seoul_lat seoul_lon,
          Geocode ''Seoul'', Forecast seoul_lat seoul_lon],
       console = [] \<rparr>"

section \<open>Notions used by the properties\<close>

text \<open>
  The instant at which the entry expires that a call at \<open>now\<close> returns (a live, truthy entry
  under the key) or stores (otherwise): the end of the time-to-live window of that call.
\<close>

definition window_end :: "world \<Rightarrow> string \<Rightarrow> nat \<Rightarrow> nat" where
  "window_end w k now =
     (case cache w k of
        None \<Rightarrow> now + cacheTTL
      | Some (v, ex) \<Rightarrow> if now < ex \<and> truthy v then ex else now + cacheTTL)"

text \<open>The states that sequences of calls of the two operations produce from the empty cache.\<close>

inductive reachable :: "world \<Rightarrow> bool" where
  start: "reachable empty_world"
| weather_call: "reachable w \<Longrightarrow> reachable (snd (getWeatherByCity rt up city now w))"
| forecast_call: "reachable w \<Longrightarrow> reachable (snd (getFiveDayForecast rt up city now w))"

text \<open>
  The shape of a current-weather report, of a forecast entry and of a grouped forecast: an
  object with the thirteen, respectively twelve, properties of the formatter's literal, in
  that order, the current temperature being a string; and an object all of whose
  properties are non-empty arrays of forecast entries.
\<close>

definition report_keys :: "string list" where
  "report_keys =
     [''weatherStatus'', ''detailWeatherStatus'', ''currentTemp'', ''apparentTemp'',
      ''currentHumi'', ''minTemp'', ''maxTemp'', ''windSpeed'', ''rainfall'', ''snowfall'',
      ''sunriseTime'', ''sunsetTime'', ''icon'']"

definition entry_keys :: "string list" where
  "entry_keys =
     [''forecastTime'', ''weatherStatus'', ''detailWeatherStatus'', ''currentTemp'',
      ''apparentTemp'', ''currentHumi'', ''minTemp'', ''maxTemp'', ''windSpeed'', ''rainfall'',
      ''snowfall'', ''icon'']"

definition is_string :: "jsval \<Rightarrow> bool" where
  "is_string v = (case v of JStr s \<Rightarrow> True | _ \<Rightarrow> False)"

definition is_current_report :: "jsval \<Rightarrow> bool" where
  "is_current_report v =
     (case v of
        JObj kvs \<Rightarrow> map fst kvs = report_keys \<and> is_string (obj_lookup kvs ''currentTemp'')
      | _ \<Rightarrow> False)"

definition is_forecast_entry :: "jsval \<Rightarrow> bool" where
  "is_forecast_entry v =
     (case v of
        JObj kvs \<Rightarrow> map fst kvs = entry_keys \<and> is_string (obj_lookup kvs ''currentTemp'')
      | _ \<Rightarrow> False)"

definition is_entry_array :: "jsval \<Rightarrow> bool" where
  "is_entry_array v =
     (case v of JArr xs \<Rightarrow> xs \<noteq> [] \<and> list_all is_forecast_entry xs | _ \<Rightarrow> False)"

definition is_grouped_forecast :: "jsval \<Rightarrow> bool" where
  "is_grouped_forecast v =
     (case v of JObj kvs \<Rightarrow> list_all (\<lambda>kv. is_entry_array (snd kv)) kvs | _ \<Rightarrow> False)"

text \<open>The invariant of the reduction: every property of the accumulator is a non-empty list of forecast entries.\<close>

definition entries_ok :: "(string \<times> jsval list) list \<Rightarrow> bool" where
  "entries_ok acc = (\<forall>kv\<in>set acc. snd kv \<noteq> [] \<and> list_all is_forecast_entry (snd kv))"

text \<open>The distinct elements of a list, each at its first occurrence.\<close>

function first_occurrences :: "'a list \<Rightarrow> 'a list" where
  "first_occurrences [] = []"
| "first_occurrences (x # xs) = x # first_occurrences (removeAll x xs)"
  by pat_completeness auto
termination
  by (relation "measure length") (auto simp: less_Suc_eq_le length_removeAll_less_eq)

text \<open>
  Grouping, as the specification words it: given the date key and the formatted entry of
  every item, in input order, the keys are the distinct dates in first-occurrence order, and
  each key has the entries of the items with that date, in input order.
\<close>

definition entries_of :: "'k \<Rightarrow> ('k \<times> 'e) list \<Rightarrow> 'e list" where
  "entries_of k kes = map snd (filter (\<lambda>ke. fst ke = k) kes)"

definition grouping :: "('k \<times> 'e) list \<Rightarrow> ('k \<times> 'e list) list" where
  "grouping kes = map (\<lambda>k. (k, entries_of k kes)) (first_occurrences (map fst kes))"


section \<open>Object literals\<close>

lemma sequence_err_Inr: "sequence_err ms = Inr xs \<longleftrightarrow> ms = map Inr xs"
proof (induction ms arbitrary: xs)
  case Nil
  show ?case by auto
next
  case (Cons m ms)
  show ?case
  proof (cases m)
    case (Inl e)
    then show ?thesis by (cases xs) auto
  next
    case (Inr x)
    show ?thesis
    proof (cases "sequence_err ms")
      case (Inl e)
      with Cons.IH Inr show ?thesis by (cases xs) auto
    next
      case r: (Inr ys)
      with Cons.IH [of ys] Inr show ?thesis by (cases xs) auto
    qed
  qed
qed

lemma sequence_err_map_Inr: "sequence_err (map Inr xs) = Inr xs"
  by (simp add: sequence_err_Inr)

lemma object_literal_Inr:
  "object_literal ps = Inr v \<longleftrightarrow>
   (\<exists>vs. map snd ps = map Inr vs \<and> v = JObj (zip (map fst ps) vs))"
  by (auto simp: object_literal_def sequence_err_Inr sequence_err_map_Inr split: sum.splits)

lemma object_literal_keys:
  assumes "object_literal ps = Inr (JObj kvs)"
  shows "map fst kvs = map fst ps"
proof -
  from assms obtain vs where vs: "map snd ps = map Inr vs" and kvs: "kvs = zip (map fst ps) vs"
    by (auto simp: object_literal_Inr)
  from vs have "length vs = length ps"
    by (metis length_map)
  then show ?thesis by (simp add: kvs)
qed

lemma object_literal_property:
  assumes "object_literal ps = Inr (JObj kvs)" and "distinct (map fst ps)" and "(k, m) \<in> set ps"
  shows "m = Inr (obj_lookup kvs k)"
proof -
  from assms(1) obtain vs where vs: "map snd ps = map Inr vs"
    and kvs: "kvs = zip (map fst ps) vs"
    by (auto simp: object_literal_Inr)
  from vs have len: "length vs = length ps"
    by (metis length_map)
  from assms(3) obtain i where i: "i < length ps" "ps ! i = (k, m)"
    by (auto simp: in_set_conv_nth)
  from vs i have m: "m = Inr (vs ! i)"
    by (metis len nth_map snd_conv)
  have "distinct (map fst kvs)"
    using assms(2) len by (simp add: kvs)
  moreover have "(k, vs ! i) \<in> set kvs"
    unfolding kvs using i len
    by (metis fst_conv in_set_zip length_map nth_map snd_conv)
  ultimately have "map_of kvs k = Some (vs ! i)"
    by (rule map_of_is_SomeI)
  then show ?thesis by (simp add: m obj_lookup_def)
qed

lemma report_properties_keys: "map fst (report_properties rt data) = report_keys"
  by (simp add: report_properties_def report_keys_def Let_def)

lemma entry_properties_keys: "map fst (entry_properties rt item) = entry_keys"
  by (simp add: entry_properties_def entry_keys_def Let_def)

lemma distinct_report_keys: "distinct report_keys"
  by (simp add: report_keys_def)

lemma distinct_entry_keys: "distinct entry_keys"
  by (simp add: entry_keys_def)

lemma formatWeatherData_Inr:
  assumes "formatWeatherData rt data = Inr v"
  obtains kvs where "v = JObj kvs" and "\<not> nullish data"
    and "object_literal (report_properties rt data) = Inr (JObj kvs)"
  using assms
  by (auto simp: formatWeatherData_def object_literal_Inr split: if_splits)

lemma formatForecastData_Inr:
  assumes "formatForecastData rt item = Inr v"
  obtains kvs where "v = JObj kvs" and "\<not> nullish item"
    and "object_literal (entry_properties rt item) = Inr (JObj kvs)"
  using assms
  by (auto simp: formatForecastData_def object_literal_Inr split: if_splits)

lemma str_field_Inr: "str_field m = Inr v \<longleftrightarrow> (\<exists>s. m = Inr s \<and> v = JStr s)"
  by (cases m) (auto simp: str_field_def and_then_def)

lemma and_then_Inr: "and_then m f = Inr y \<longleftrightarrow> (\<exists>x. m = Inr x \<and> f x = Inr y)"
  by (cases m) (auto simp: and_then_def)

lemma call_toFixed_2_Inr:
  "call_toFixed_2 rt v = Inr s \<longleftrightarrow> (\<exists>n. v = JNum n \<and> s = toFixed_2 rt n)"
  by (cases v) auto

lemma fixed_field_Inr:
  "fixed_field rt ob k sfx = Inr v \<longleftrightarrow>
   (\<exists>n. get_prop ob k = Inr (JNum n) \<and> v = JStr (toFixed_2 rt n @ sfx))"
  by (auto simp: fixed_field_def str_field_Inr and_then_Inr call_toFixed_2_Inr)

lemma current_temp_property:
  "(''currentTemp'', fixed_field rt (read_prop data ''main'') ''temp'' celsius)
     \<in> set (report_properties rt data)"
  "(''currentTemp'', fixed_field rt (read_prop item ''main'') ''temp'' celsius)
     \<in> set (entry_properties rt item)"
  by (simp_all add: report_properties_def entry_properties_def Let_def)

lemma formatWeatherData_shape:
  assumes "formatWeatherData rt data = Inr v"
  shows "is_current_report v"
proof -
  from assms obtain kvs where v: "v = JObj kvs"
    and lit: "object_literal (report_properties rt data) = Inr (JObj kvs)"
    by (rule formatWeatherData_Inr)
  have keys: "map fst kvs = report_keys"
    using object_literal_keys [OF lit] by (simp add: report_properties_keys)
  have "fixed_field rt (read_prop data ''main'') ''temp'' celsius
      = Inr (obj_lookup kvs ''currentTemp'')"
    by (rule object_literal_property [OF lit _ current_temp_property(1)])
       (simp add: report_properties_keys distinct_report_keys)
  then have "is_string (obj_lookup kvs ''currentTemp'')"
    by (auto simp: fixed_field_Inr is_string_def)
  with keys show ?thesis by (simp add: v is_current_report_def)
qed

lemma formatForecastData_shape:
  assumes "formatForecastData rt item = Inr v"
  shows "is_forecast_entry v"
proof -
  from assms obtain kvs where v: "v = JObj kvs"
    and lit: "object_literal (entry_properties rt item) = Inr (JObj kvs)"
    by (rule formatForecastData_Inr)
  have keys: "map fst kvs = entry_keys"
    using object_literal_keys [OF lit] by (simp add: entry_properties_keys)
  have "fixed_field rt (read_prop item ''main'') ''temp'' celsius
      = Inr (obj_lookup kvs ''currentTemp'')"
    by (rule object_literal_property [OF lit _ current_temp_property(2)])
       (simp add: entry_properties_keys distinct_entry_keys)
  then have "is_string (obj_lookup kvs ''currentTemp'')"
    by (auto simp: fixed_field_Inr is_string_def)
  with keys show ?thesis by (simp add: v is_forecast_entry_def)
qed

section \<open>The service: how a call proceeds\<close>

lemmas service_defs =
  getCoordinatesByCity_def fetchWeatherData_def httpService_get_def catch_rethrow_def
  store_result_def

lemma getWeatherByCity_hit:
  "truthy (cache_get (cache w) (''weather_'' @ city) now) \<Longrightarrow>
   getWeatherByCity rt up city now w = (Inr (cache_get (cache w) (''weather_'' @ city) now), w)"
  by (simp only: getWeatherByCity_def Let_def if_P)

lemma getFiveDayForecast_hit:
  "truthy (cache_get (cache w) (''forecast_'' @ city) now) \<Longrightarrow>
   getFiveDayForecast rt up city now w = (Inr (cache_get (cache w) (''forecast_'' @ city) now), w)"
  by (simp only: getFiveDayForecast_def Let_def if_P)

lemma getWeatherByCity_miss:
  "\<not> truthy (cache_get (cache w) (''weather_'' @ city) now) \<Longrightarrow>
   getWeatherByCity rt up city now w =
     (case getCoordinatesByCity up city w of
        (Inl e, w1) \<Rightarrow> (Inl e, w1)
      | (Inr (lat, lon), w1) \<Rightarrow>
          catch_rethrow
            (case fetchWeatherData up (Current lat lon) w1 of
               (Inl e, w2) \<Rightarrow> (Inl e, w2)
             | (Inr data, w2) \<Rightarrow>
                 store_result (''weather_'' @ city) now (formatWeatherData rt data) w2)
            (HttpException ''Failed to fetch weather data'' INTERNAL_SERVER_ERROR))"
  by (simp only: getWeatherByCity_def Let_def if_not_P if_False)

lemma getFiveDayForecast_miss:
  "\<not> truthy (cache_get (cache w) (''forecast_'' @ city) now) \<Longrightarrow>
   getFiveDayForecast rt up city now w =
     (case getCoordinatesByCity up city w of
        (Inl e, w1) \<Rightarrow> (Inl e, w1)
      | (Inr (lat, lon), w1) \<Rightarrow>
          catch_rethrow
            (case fetchWeatherData up (Forecast lat lon) w1 of
               (Inl e, w2) \<Rightarrow> (Inl e, w2)
             | (Inr data, w2) \<Rightarrow>
                 store_result (''forecast_'' @ city) now
                   (and_then (get_prop data ''list'') (groupForecastByDate rt)) w2)
            (HttpException ''Failed to fetch forecast data'' INTERNAL_SERVER_ERROR))"
  by (simp only: getFiveDayForecast_def Let_def if_not_P if_False)

lemma getCoordinatesByCity_world:
  "getCoordinatesByCity up city w = (r, w1) \<Longrightarrow>
   w1 = w\<lparr>requests := requests w @ [Geocode city]\<rparr>"
  by (auto simp: getCoordinatesByCity_def httpService_get_def split: http_result.splits)



lemma fetchWeatherData_Response:
  "up req = Response data \<Longrightarrow>
   fetchWeatherData up req w = (Inr data, w\<lparr>requests := requests w @ [req]\<rparr>)"
  by (simp add: fetchWeatherData_def httpService_get_def)


lemma fetchWeatherData_Inr:
  "fetchWeatherData up req w = (Inr data, w2) \<Longrightarrow>
   up req = Response data \<and> w2 = w\<lparr>requests := requests w @ [req]\<rparr>"
  by (auto simp: fetchWeatherData_def httpService_get_def split: http_result.splits)

section \<open>Cache lookup\<close>




lemma catch_rethrow_Inl [simp]: "catch_rethrow (Inl e', w) e = (Inl e, w)"
  by (simp add: catch_rethrow_def)

lemma catch_rethrow_Inr [simp]: "catch_rethrow (Inr x, w) e = (Inr x, w)"
  by (simp add: catch_rethrow_def)

lemma store_result_Inl [simp]: "store_result k now (Inl e) w = (Inl e, w)"
  by (simp add: store_result_def)

lemma store_result_Inr [simp]:
  "store_result k now (Inr v) w = (Inr v, w\<lparr>cache := cache_set (cache w) k v cacheTTL now\<rparr>)"
  by (simp add: store_result_def)

section \<open>Errors\<close>


lemma empty_world_miss: "\<not> truthy (cache_get (cache empty_world) k now)"
  by (simp add: empty_world_def cache_get_def)


lemma seoul_found:
  "getCoordinatesByCity provider_down ''Seoul'' empty_world = (Inr (seoul_lat, seoul_lon), seoul_asked)"
  "getCoordinatesByCity provider ''Seoul'' empty_world = (Inr (seoul_lat, seoul_lon), seoul_asked)"
  by (simp_all add: getCoordinatesByCity_def httpService_get_def and_then_def seoul_geocode_def
        nullish_def obj_lookup_def seoul_asked_def empty_world_def)













section \<open>Two calls in succession\<close>

lemma formatWeatherData_object: "formatWeatherData rt data = Inr v \<Longrightarrow> \<exists>kvs. v = JObj kvs"
  by (auto simp: formatWeatherData_def object_literal_def Let_def split: if_splits sum.splits)

lemma groupForecastByDate_object: "groupForecastByDate rt l = Inr v \<Longrightarrow> \<exists>kvs. v = JObj kvs"
  by (cases l) (auto simp: and_then_def grouped_object_def split: sum.splits)

lemma cache_get_truthy:
  "truthy (cache_get c k now) \<Longrightarrow> \<exists>ex. c k = Some (cache_get c k now, ex) \<and> now < ex"
  by (auto simp: cache_get_def split: option.splits if_splits)

lemma cache_get_set: "t2 < now + ttl \<Longrightarrow> cache_get (cache_set c k v ttl now) k t2 = v"
  by (simp add: cache_get_def cache_set_def)

lemma getWeatherByCity_success:
  assumes "getWeatherByCity rt up city now w = (Inr v, w1)"
  shows "(truthy (cache_get (cache w) (''weather_'' @ city) now)
            \<and> v = cache_get (cache w) (''weather_'' @ city) now \<and> w1 = w)
       \<or> (\<not> truthy (cache_get (cache w) (''weather_'' @ city) now)
            \<and> (\<exists>lat lon data.
                  formatWeatherData rt data = Inr v
                  \<and> w1 = w\<lparr>requests := requests w @ [Geocode city, Current lat lon],
                            cache := cache_set (cache w) (''weather_'' @ city) v cacheTTL now\<rparr>))"
proof (cases "truthy (cache_get (cache w) (''weather_'' @ city) now)")
  case True
  then show ?thesis using assms by (auto simp: getWeatherByCity_hit)
next
  case False
  show ?thesis
    using assms False unfolding getWeatherByCity_miss [OF False]
    apply (auto simp: store_result_def catch_rethrow_def
          dest!: getCoordinatesByCity_world fetchWeatherData_Inr
          split: prod.splits sum.splits)
    apply blast
    done
qed

lemma getFiveDayForecast_success:
  assumes "getFiveDayForecast rt up city now w = (Inr v, w1)"
  shows "(truthy (cache_get (cache w) (''forecast_'' @ city) now)
            \<and> v = cache_get (cache w) (''forecast_'' @ city) now \<and> w1 = w)
       \<or> (\<not> truthy (cache_get (cache w) (''forecast_'' @ city) now)
            \<and> (\<exists>lat lon l.
                  groupForecastByDate rt l = Inr v
                  \<and> w1 = w\<lparr>requests := requests w @ [Geocode city, Forecast lat lon],
                            cache := cache_set (cache w) (''forecast_'' @ city) v cacheTTL now\<rparr>))"
proof (cases "truthy (cache_get (cache w) (''forecast_'' @ city) now)")
  case True
  then show ?thesis using assms by (auto simp: getFiveDayForecast_hit)
next
  case False
  show ?thesis
    using assms False unfolding getFiveDayForecast_miss [OF False]
    apply (auto simp: store_result_def catch_rethrow_def and_then_def
          dest!: getCoordinatesByCity_world fetchWeatherData_Inr
          split: prod.splits sum.splits)
    apply blast
    done
qed

lemma window_end_miss:
  "\<not> truthy (cache_get (cache w) k now) \<Longrightarrow> window_end w k now = now + cacheTTL"
  by (auto simp: window_end_def cache_get_def split: option.splits if_splits)

lemma window_end_hit:
  "truthy (cache_get (cache w) k now) \<Longrightarrow>
   cache w k = Some (cache_get (cache w) k now, window_end w k now)"
  by (auto simp: window_end_def cache_get_def split: option.splits if_splits)

lemma cache_get_later:
  "c k = Some (v, ex) \<Longrightarrow> t2 < ex \<Longrightarrow> cache_get c k t2 = v"
  by (simp add: cache_get_def)

lemma weather_second_call:
  assumes first: "getWeatherByCity rt up city t1 w = (Inr v, w1)"
    and window: "t2 < window_end w (''weather_'' @ city) t1"
  shows "getWeatherByCity rt' up' city t2 w1 = (Inr v, w1)
       \<and> (requests w1 = requests w
          \<or> (\<exists>lat lon. requests w1 = requests w @ [Geocode city, Current lat lon]))"
proof -
  let ?k = "''weather_'' @ city"
  have *: "cache_get (cache w1) ?k t2 = v \<and> truthy v
      \<and> (requests w1 = requests w
          \<or> (\<exists>lat lon. requests w1 = requests w @ [Geocode city, Current lat lon]))"
    using getWeatherByCity_success [OF first]
  proof (elim disjE conjE exE)
    assume hit: "truthy (cache_get (cache w) ?k t1)"
      and v: "v = cache_get (cache w) ?k t1" and w1: "w1 = w"
    have "cache w ?k = Some (v, window_end w ?k t1)"
      unfolding v by (rule window_end_hit [OF hit])
    then have "cache_get (cache w) ?k t2 = v"
      using window by (rule cache_get_later)
    with hit v w1 show ?thesis by simp
  next
    fix lat lon data
    assume miss: "\<not> truthy (cache_get (cache w) ?k t1)"
      and fmt: "formatWeatherData rt data = Inr v"
      and w1: "w1 = w\<lparr>requests := requests w @ [Geocode city, Current lat lon],
                       cache := cache_set (cache w) ?k v cacheTTL t1\<rparr>"
    from window have "t2 < t1 + cacheTTL" by (simp only: window_end_miss [OF miss])
    then have get: "cache_get (cache w1) ?k t2 = v"
      unfolding w1 by (simp add: cache_get_set)
    from formatWeatherData_object [OF fmt] have "truthy v" by auto
    moreover have "requests w1 = requests w @ [Geocode city, Current lat lon]"
      unfolding w1 by simp
    ultimately show ?thesis using get by blast
  qed
  then have "truthy (cache_get (cache w1) ?k t2)" by simp
  from getWeatherByCity_hit [OF this, of rt' up'] * show ?thesis by simp
qed

lemma forecast_second_call:
  assumes first: "getFiveDayForecast rt up city t1 w = (Inr v, w1)"
    and window: "t2 < window_end w (''forecast_'' @ city) t1"
  shows "getFiveDayForecast rt' up' city t2 w1 = (Inr v, w1)
       \<and> (requests w1 = requests w
          \<or> (\<exists>lat lon. requests w1 = requests w @ [Geocode city, Forecast lat lon]))"
proof -
  let ?k = "''forecast_'' @ city"
  have *: "cache_get (cache w1) ?k t2 = v \<and> truthy v
      \<and> (requests w1 = requests w
          \<or> (\<exists>lat lon. requests w1 = requests w @ [Geocode city, Forecast lat lon]))"
    using getFiveDayForecast_success [OF first]
  proof (elim disjE conjE exE)
    assume hit: "truthy (cache_get (cache w) ?k t1)"
      and v: "v = cache_get (cache w) ?k t1" and w1: "w1 = w"
    have "cache w ?k = Some (v, window_end w ?k t1)"
      unfolding v by (rule window_end_hit [OF hit])
    then have "cache_get (cache w) ?k t2 = v"
      using window by (rule cache_get_later)
    with hit v w1 show ?thesis by simp
  next
    fix lat lon l
    assume miss: "\<not> truthy (cache_get (cache w) ?k t1)"
      and grp: "groupForecastByDate rt l = Inr v"
      and w1: "w1 = w\<lparr>requests := requests w @ [Geocode city, Forecast lat lon],
                       cache := cache_set (cache w) ?k v cacheTTL t1\<rparr>"
    from window have "t2 < t1 + cacheTTL" by (simp only: window_end_miss [OF miss])
    then have get: "cache_get (cache w1) ?k t2 = v"
      unfolding w1 by (simp add: cache_get_set)
    from groupForecastByDate_object [OF grp] have "truthy v" by auto
    moreover have "requests w1 = requests w @ [Geocode city, Forecast lat lon]"
      unfolding w1 by simp
    ultimately show ?thesis using get by blast
  qed
  then have "truthy (cache_get (cache w1) ?k t2)" by simp
  from getFiveDayForecast_hit [OF this, of rt' up'] * show ?thesis by simp
qed

lemma seoul_current_formatted: "formatWeatherData host_utc seoul_current = Inr seoul_report"
  by code_simp

lemma seoul_forecast_grouped:
  "groupForecastByDate host_utc (JArr seoul_forecast_list) = Inr seoul_grouped"
  by code_simp

lemma seoul_forecast_list: "get_prop seoul_forecast ''list'' = Inr (JArr seoul_forecast_list)"
  by (simp add: seoul_forecast_def get_prop_def nullish_def obj_lookup_def)

lemma seoul_weather_first_call:
  "getWeatherByCity host_utc provider ''Seoul'' 0 empty_world
     = (Inr seoul_report, seoul_weather_cached)"
  unfolding getWeatherByCity_miss [OF empty_world_miss] seoul_found
  by (simp add: fetchWeatherData_Response seoul_current_formatted seoul_asked_def
        empty_world_def seoul_weather_cached_def cache_set_def cacheTTL_def)

lemma seoul_forecast_first_call:
  "getFiveDayForecast host_utc provider ''Seoul'' 0 empty_world
     = (Inr seoul_grouped, seoul_forecast_cached)"
  unfolding getFiveDayForecast_miss [OF empty_world_miss] seoul_found
  by (simp add: fetchWeatherData_Response seoul_forecast_list and_then_def
        seoul_forecast_grouped seoul_asked_def empty_world_def seoul_forecast_cached_def
        cache_set_def cacheTTL_def del: groupForecastByDate.simps)

lemma empty_world_window: "window_end empty_world k now = now + 300"
  by (simp add: window_end_def empty_world_def cacheTTL_def)

text \<open>
  Claim C2, as amended. When the first of two calls of the same operation for the same city
  returns a result, and the second call is made before the end of the time-to-live window
  of the first, the second call returns the same result and leaves the state as the first
  call left it; over the two calls the geocoder and the weather provider received one
  request each, or none. (A call that fails stores nothing, so the call after it asks the
  collaborators again.)
\<close>

theorem second_call_is_served_from_cache:
  "(getWeatherByCity rt up city t1 w = (Inr v, w1) \<and> t1 \<le> t2
      \<and> t2 < window_end w (''weather_'' @ city) t1 \<longrightarrow>
        getWeatherByCity rt' up' city t2 w1 = (Inr v, w1)
        \<and> (requests w1 = requests w
            \<or> (\<exists>lat lon. requests w1 = requests w @ [Geocode city, Current lat lon])))
   \<and> (getFiveDayForecast rt up city t1 w = (Inr v, w1) \<and> t1 \<le> t2
      \<and> t2 < window_end w (''forecast_'' @ city) t1 \<longrightarrow>
        getFiveDayForecast rt' up' city t2 w1 = (Inr v, w1)
        \<and> (requests w1 = requests w
            \<or> (\<exists>lat lon. requests w1 = requests w @ [Geocode city, Forecast lat lon])))"
proof (rule conjI; rule impI; elim conjE)
  assume "getWeatherByCity rt up city t1 w = (Inr v, w1)"
    and "t2 < window_end w (''weather_'' @ city) t1"
  then show "getWeatherByCity rt' up' city t2 w1 = (Inr v, w1)
      \<and> (requests w1 = requests w
          \<or> (\<exists>lat lon. requests w1 = requests w @ [Geocode city, Current lat lon]))"
    by (rule weather_second_call)
next
  assume "getFiveDayForecast rt up city t1 w = (Inr v, w1)"
    and "t2 < window_end w (''forecast_'' @ city) t1"
  then show "getFiveDayForecast rt' up' city t2 w1 = (Inr v, w1)
      \<and> (requests w1 = requests w
          \<or> (\<exists>lat lon. requests w1 = requests w @ [Geocode city, Forecast lat lon]))"
    by (rule forecast_second_call)
qed

text \<open>
  The theorem for Seoul: a first call at instant 0 on the empty cache, a second call at
  instant 299 while the weather endpoints are out of service.
\<close>

theorem second_call_is_served_from_cache_witness:
  "getWeatherByCity host_utc provider ''Seoul'' 0 empty_world
     = (Inr seoul_report, seoul_weather_cached)
   \<and> (0::nat) \<le> 299 \<and> 299 < window_end empty_world (''weather_'' @ ''Seoul'') 0
   \<and> getWeatherByCity host_seoul provider_down ''Seoul'' 299 seoul_weather_cached
     = (Inr seoul_report, seoul_weather_cached)
   \<and> getFiveDayForecast host_utc provider ''Seoul'' 0 empty_world
     = (Inr seoul_grouped, seoul_forecast_cached)
   \<and> 299 < window_end empty_world (''forecast_'' @ ''Seoul'') 0
   \<and> getFiveDayForecast host_seoul provider_down ''Seoul'' 299 seoul_forecast_cached
     = (Inr seoul_grouped, seoul_forecast_cached)"
proof -
  have window: "299 < window_end empty_world (''weather_'' @ ''Seoul'') 0"
    "299 < window_end empty_world (''forecast_'' @ ''Seoul'') 0"
    by (simp_all add: empty_world_window)
  have order: "(0::nat) \<le> 299" by simp
  from second_call_is_served_from_cache
      [where rt = host_utc and up = provider and city = "''Seoul''" and ?t1.0 = 0
         and w = empty_world and v = seoul_report and ?w1.0 = seoul_weather_cached
         and ?t2.0 = 299 and rt' = host_seoul and up' = provider_down]
    seoul_weather_first_call order window(1)
  have weather: "getWeatherByCity host_seoul provider_down ''Seoul'' 299 seoul_weather_cached
      = (Inr seoul_report, seoul_weather_cached)"
    by blast
  from second_call_is_served_from_cache
      [where rt = host_utc and up = provider and city = "''Seoul''" and ?t1.0 = 0
         and w = empty_world and v = seoul_grouped and ?w1.0 = seoul_forecast_cached
         and ?t2.0 = 299 and rt' = host_seoul and up' = provider_down]
    seoul_forecast_first_call order window(2)
  have forecast: "getFiveDayForecast host_seoul provider_down ''Seoul'' 299 seoul_forecast_cached
      = (Inr seoul_grouped, seoul_forecast_cached)"
    by blast
  from seoul_weather_first_call seoul_forecast_first_call order window weather forecast
  show ?thesis by blast
qed

text \<open>
  Claim C2 as written fails: for a city that the geocoder does not know, two calls one
  instant apart send the geocoding request twice.
\<close>

theorem failed_call_repeats_requests_counterexample:
  "requests (snd (getWeatherByCity host_utc provider ''Busan'' 1
               (snd (getWeatherByCity host_utc provider ''Busan'' 0 empty_world))))
     = [Geocode ''Busan'', Geocode ''Busan'']
   \<and> (1::nat) < window_end empty_world ''weather_Busan'' 0"
  by code_simp

section \<open>The reduction\<close>

lemma group_step_Inr:
  "group_step rt acc cur = Inr acc' \<longleftrightarrow>
   (\<exists>k e. forecastDate rt cur = Inr k \<and> k \<notin> set object_prototype_names
      \<and> formatForecastData rt cur = Inr e \<and> acc' = add_entry acc k e)"
  by (auto simp: group_step_def and_then_Inr)

lemma reduce_err_invariant:
  assumes "reduce_err f xs acc = Inr acc'" and "P acc"
    and step: "\<And>a x a'. P a \<Longrightarrow> x \<in> set xs \<Longrightarrow> f a x = Inr a' \<Longrightarrow> P a'"
  shows "P acc'"
  using assms
proof (induction xs arbitrary: acc)
  case Nil
  then show ?case by simp
next
  case (Cons x xs)
  from Cons.prems(1) obtain a where a: "f acc x = Inr a" and rest: "reduce_err f xs a = Inr acc'"
    by (auto simp: and_then_Inr)
  have "P a" using Cons.prems(2) a by (rule Cons.prems(3) [where x = x, simplified])
  with rest show ?case
    by (rule Cons.IH) (auto intro: Cons.prems(3))
qed

lemma push_to_cases:
  "kv \<in> set (push_to acc k e) \<Longrightarrow>
   (kv \<in> set acc \<and> fst kv \<noteq> k) \<or> (\<exists>xs. (k, xs) \<in> set acc \<and> kv = (k, xs @ [e]))"
  by (auto simp: push_to_def)

lemma add_entry_cases:
  assumes "kv \<in> set (add_entry acc k e)"
  shows "(kv \<in> set acc \<and> fst kv \<noteq> k)
       \<or> (\<exists>xs. ((k, xs) \<in> set acc \<or> xs = []) \<and> kv = (k, xs @ [e]))"
  using push_to_cases [OF assms [unfolded add_entry_def]]
  by (auto split: if_splits)

lemma add_entry_ok:
  assumes "entries_ok acc" and "is_forecast_entry e"
  shows "entries_ok (add_entry acc k e)"
  unfolding entries_ok_def
proof
  fix kv
  assume "kv \<in> set (add_entry acc k e)"
  from add_entry_cases [OF this] assms
  show "snd kv \<noteq> [] \<and> list_all is_forecast_entry (snd kv)"
    by (auto simp: entries_ok_def)
qed

lemma set_own_property_order: "set (own_property_order kvs) = set kvs"
  by (auto simp: own_property_order_def)

lemma grouped_object_shape:
  "entries_ok acc \<Longrightarrow> is_grouped_forecast (grouped_object acc)"
  by (auto simp: entries_ok_def grouped_object_def is_grouped_forecast_def is_entry_array_def
        set_own_property_order list_all_iff)

lemma groupForecastByDate_shape:
  assumes "groupForecastByDate rt l = Inr v"
  shows "is_grouped_forecast v"
proof -
  from assms obtain xs acc where l: "l = JArr xs"
    and acc: "reduce_err (group_step rt) xs [] = Inr acc" and v: "v = grouped_object acc"
    by (cases l) (auto simp: and_then_Inr)
  have "entries_ok acc"
    using acc
  proof (rule reduce_err_invariant)
    show "entries_ok []" by (simp add: entries_ok_def)
  next
    fix a x a'
    assume "entries_ok a" and "group_step rt a x = Inr a'"
    then show "entries_ok a'"
      by (auto simp: group_step_Inr intro: add_entry_ok formatForecastData_shape)
  qed
  then show ?thesis unfolding v by (rule grouped_object_shape)
qed

section \<open>Grouping by date\<close>

lemma first_occurrences_snoc:
  "first_occurrences (xs @ [k])
     = (if k \<in> set xs then first_occurrences xs else first_occurrences xs @ [k])"
proof (induction xs rule: first_occurrences.induct)
  case 1
  show ?case by simp
next
  case (2 x xs)
  show ?case
  proof (cases "k = x")
    case True
    then show ?thesis by simp
  next
    case False
    with "2.IH" show ?thesis by simp
  qed
qed

lemma set_first_occurrences: "set (first_occurrences xs) = set xs"
  by (induction xs rule: rev_induct) (auto simp: first_occurrences_snoc)

lemma distinct_first_occurrences: "distinct (first_occurrences xs)"
  by (induction xs rule: rev_induct) (auto simp: first_occurrences_snoc set_first_occurrences)

lemma entries_of_snoc:
  "entries_of k (kes @ [(k', e)]) = entries_of k kes @ (if k' = k then [e] else [])"
  by (simp add: entries_of_def)

lemma entries_of_absent: "k \<notin> fst ` set kes \<Longrightarrow> entries_of k kes = []"
  by (auto simp: entries_of_def filter_empty_conv)

lemma map_fst_grouping: "map fst (grouping kes) = first_occurrences (map fst kes)"
  by (simp add: grouping_def comp_def)

lemma has_key_grouping: "has_key (grouping kes) k \<longleftrightarrow> k \<in> fst ` set kes"
  by (simp add: has_key_def map_fst_grouping set_first_occurrences)

lemma push_to_map:
  "push_to (map (\<lambda>k. (k, f k)) ks) k' e = map (\<lambda>k. (k, if k = k' then f k @ [e] else f k)) ks"
  by (simp add: push_to_def comp_def)

lemma grouping_snoc: "grouping (kes @ [(k, e)]) = add_entry (grouping kes) k e"
proof (cases "k \<in> fst ` set kes")
  case True
  then have "first_occurrences (map fst (kes @ [(k, e)])) = first_occurrences (map fst kes)"
    by (simp add: first_occurrences_snoc)
  moreover from True have "add_entry (grouping kes) k e = push_to (grouping kes) k e"
    by (simp add: add_entry_def has_key_grouping)
  ultimately show ?thesis
    by (auto simp: grouping_def push_to_map entries_of_snoc)
next
  case False
  then have fo: "first_occurrences (map fst kes @ [k]) = first_occurrences (map fst kes) @ [k]"
    by (simp add: first_occurrences_snoc)
  from False have k: "k \<notin> set (first_occurrences (map fst kes))"
    by (simp add: set_first_occurrences)
  from False have "add_entry (grouping kes) k e = push_to (grouping kes @ [(k, [])]) k e"
    by (simp add: add_entry_def has_key_grouping)
  also have "\<dots> = push_to (grouping kes) k e @ [(k, [e])]"
    by (simp add: push_to_def)
  also have "push_to (grouping kes) k e = grouping kes"
    using k by (auto simp: grouping_def push_to_map)
  finally have right: "add_entry (grouping kes) k e = grouping kes @ [(k, [e])]" .
  have "grouping (kes @ [(k, e)])
      = map (\<lambda>k'. (k', entries_of k' (kes @ [(k, e)]))) (first_occurrences (map fst kes))
        @ [(k, entries_of k (kes @ [(k, e)]))]"
    by (simp add: grouping_def fo)
  also have "map (\<lambda>k'. (k', entries_of k' (kes @ [(k, e)]))) (first_occurrences (map fst kes))
      = grouping kes"
    using k by (auto simp: grouping_def entries_of_snoc)
  also have "entries_of k (kes @ [(k, e)]) = [e]"
    using False by (simp add: entries_of_snoc entries_of_absent)
  finally show ?thesis by (simp add: right)
qed

lemma foldl_add_entry:
  "foldl (\<lambda>a ke. add_entry a (fst ke) (snd ke)) [] kes = grouping kes"
proof (induction kes rule: rev_induct)
  case Nil
  show ?case by (simp add: grouping_def)
next
  case (snoc ke kes)
  then show ?case by (cases ke) (simp add: grouping_snoc)
qed

lemma reduce_err_group_step:
  assumes "map (forecastDate rt) items = map Inr ks"
    and "map (formatForecastData rt) items = map Inr es"
    and "\<forall>k\<in>set ks. k \<notin> set object_prototype_names"
  shows "reduce_err (group_step rt) items acc
       = Inr (foldl (\<lambda>a ke. add_entry a (fst ke) (snd ke)) acc (zip ks es))"
  using assms
proof (induction items arbitrary: ks es acc)
  case Nil
  then show ?case by simp
next
  case (Cons x items)
  from Cons.prems(1) obtain k ks' where ks: "ks = k # ks'" and k: "forecastDate rt x = Inr k"
    and ks': "map (forecastDate rt) items = map Inr ks'"
    by (cases ks) auto
  from Cons.prems(2) obtain e es' where es: "es = e # es'"
    and e: "formatForecastData rt x = Inr e"
    and es': "map (formatForecastData rt) items = map Inr es'"
    by (cases es) auto
  from Cons.prems(3) ks have plain: "k \<notin> set object_prototype_names"
    and plain': "\<forall>k\<in>set ks'. k \<notin> set object_prototype_names"
    by simp_all
  have "group_step rt acc x = Inr (add_entry acc k e)"
    using k e plain by (simp add: group_step_Inr)
  then show ?case
    by (simp add: and_then_def ks es Cons.IH [OF ks' es' plain'])
qed

lemma reduce_err_group_step_Inr:
  assumes "reduce_err (group_step rt) items acc = Inr acc'"
  shows "\<exists>ks es. map (forecastDate rt) items = map Inr ks
           \<and> map (formatForecastData rt) items = map Inr es
           \<and> (\<forall>k\<in>set ks. k \<notin> set object_prototype_names)"
  using assms
proof (induction items arbitrary: acc)
  case Nil
  then show ?case by simp
next
  case (Cons x items)
  from Cons.prems obtain a where a: "group_step rt acc x = Inr a"
    and rest: "reduce_err (group_step rt) items a = Inr acc'"
    by (auto simp: and_then_Inr)
  from a obtain k e where k: "forecastDate rt x = Inr k" "k \<notin> set object_prototype_names"
    and e: "formatForecastData rt x = Inr e"
    by (auto simp: group_step_Inr)
  from Cons.IH [OF rest] obtain ks es where "map (forecastDate rt) items = map Inr ks"
    "map (formatForecastData rt) items = map Inr es"
    "\<forall>k\<in>set ks. k \<notin> set object_prototype_names"
    by blast
  with k e have "map (forecastDate rt) (x # items) = map Inr (k # ks)
      \<and> map (formatForecastData rt) (x # items) = map Inr (e # es)
      \<and> (\<forall>k\<in>set (k # ks). k \<notin> set object_prototype_names)"
    by simp
  then show ?case by blast
qed

lemma own_property_order_plain:
  "\<forall>kv\<in>set kvs. \<not> is_array_index (fst kv) \<Longrightarrow> own_property_order kvs = kvs"
  by (simp add: own_property_order_def filter_empty_conv filter_id_conv)

lemma push_to_absent: "k \<notin> fst ` set acc \<Longrightarrow> push_to acc k e = acc"
  by (induction acc) (auto simp: push_to_def)

lemma push_to_mset:
  "distinct (map fst acc) \<Longrightarrow> k \<in> fst ` set acc \<Longrightarrow>
   mset (concat (map snd (push_to acc k e))) = mset (concat (map snd acc)) + {#e#}"
proof (induction acc)
  case Nil
  then show ?case by simp
next
  case (Cons kv acc)
  show ?case
  proof (cases "fst kv = k")
    case True
    with Cons.prems(1) have "k \<notin> fst ` set acc" by auto
    then have "push_to acc k e = acc" by (rule push_to_absent)
    then have "push_to (kv # acc) k e = (k, snd kv @ [e]) # acc"
      using True by (simp add: push_to_def)
    then show ?thesis by simp
  next
    case False
    with Cons.prems have "mset (concat (map snd (push_to acc k e)))
        = mset (concat (map snd acc)) + {#e#}"
      by (intro Cons.IH) auto
    moreover have "push_to (kv # acc) k e = kv # push_to acc k e"
      using False by (simp add: push_to_def)
    ultimately show ?thesis by simp
  qed
qed

lemma add_entry_mset:
  assumes "distinct (map fst acc)"
  shows "mset (concat (map snd (add_entry acc k e))) = mset (concat (map snd acc)) + {#e#}"
proof (cases "has_key acc k")
  case True
  then have "k \<in> fst ` set acc" by (simp add: has_key_def)
  with assms True show ?thesis by (simp add: add_entry_def push_to_mset)
next
  case False
  then have k: "k \<notin> fst ` set acc" by (simp add: has_key_def)
  have "push_to (acc @ [(k, [])]) k e = push_to acc k e @ [(k, [e])]"
    by (simp add: push_to_def)
  with False show ?thesis by (simp add: add_entry_def push_to_absent [OF k])
qed

lemma grouping_mset:
  fixes kes :: "(string \<times> jsval) list"
  shows "mset (concat (map snd (grouping kes))) = mset (map snd kes)"
proof (induction kes rule: rev_induct)
  case Nil
  show ?case by (simp add: grouping_def)
next
  case (snoc ke kes)
  have "distinct (map fst (grouping kes))"
    by (simp add: map_fst_grouping distinct_first_occurrences)
  from add_entry_mset [OF this] snoc show ?case
    by (cases ke) (simp add: grouping_snoc)
qed

lemma grouping_entries: "g \<in> set (grouping kes) \<Longrightarrow> snd g = entries_of (fst g) kes"
  by (auto simp: grouping_def)

text \<open>
  Claim C5. For a list of raw forecast items each of which has a date key and a formatted
  entry (the items for which the grouper does not raise), where no date key is an array
  index, the function returns an object whose keys are the distinct date keys of the items
  in the order of their first occurrence; under each key stand the formatted entries of the
  items with that date, in input order; and the groups taken together hold the formatted
  entries of all items, each once, as many as there are items.
\<close>

theorem forecast_grouped_by_date_in_input_order:
  assumes "map (forecastDate rt) items = map Inr ks"
    and "map (formatForecastData rt) items = map Inr es"
    and "\<forall>k\<in>set ks. k \<notin> set object_prototype_names \<and> \<not> is_array_index k"
  shows "\<exists>groups.
           groupForecastByDate rt (JArr items)
             = Inr (JObj (map (\<lambda>g. (fst g, JArr (snd g))) groups))
           \<and> map fst groups = first_occurrences ks
           \<and> (\<forall>g\<in>set groups. snd g = map snd (filter (\<lambda>ke. fst ke = fst g) (zip ks es)))
           \<and> mset (concat (map snd groups)) = mset es
           \<and> length (concat (map snd groups)) = length items"
proof -
  let ?kes = "zip ks es"
  have len: "length ks = length items" "length es = length items"
    using assms(1,2) by (metis length_map)+
  then have fst: "map fst ?kes = ks" and snd: "map snd ?kes = es"
    by simp_all
  from assms(3) have proto: "\<forall>k\<in>set ks. k \<notin> set object_prototype_names" by blast
  have "reduce_err (group_step rt) items [] = Inr (grouping ?kes)"
    by (simp only: reduce_err_group_step [OF assms(1,2) proto] foldl_add_entry)
  then have "groupForecastByDate rt (JArr items) = Inr (grouped_object (grouping ?kes))"
    by (simp add: and_then_def)
  moreover have "own_property_order (map (\<lambda>kv. (fst kv, JArr (snd kv))) (grouping ?kes))
      = map (\<lambda>kv. (fst kv, JArr (snd kv))) (grouping ?kes)"
  proof (rule own_property_order_plain, rule ballI)
    fix kv
    assume "kv \<in> set (map (\<lambda>kv. (fst kv, JArr (snd kv))) (grouping ?kes))"
    then have "fst kv \<in> set (map fst (grouping ?kes))" by force
    then have "fst kv \<in> set ks"
      by (simp only: map_fst_grouping set_first_occurrences fst)
    with assms(3) show "\<not> is_array_index (fst kv)" by blast
  qed
  ultimately have "groupForecastByDate rt (JArr items)
      = Inr (JObj (map (\<lambda>g. (fst g, JArr (snd g))) (grouping ?kes)))"
    by (simp add: grouped_object_def)
  moreover have "map fst (grouping ?kes) = first_occurrences ks"
    by (simp only: map_fst_grouping fst)
  moreover have "\<forall>g\<in>set (grouping ?kes).
      snd g = map snd (filter (\<lambda>ke. fst ke = fst g) ?kes)"
    by (auto dest: grouping_entries simp: entries_of_def)
  moreover have m: "mset (concat (map snd (grouping ?kes))) = mset es"
    by (simp only: grouping_mset snd)
  moreover have "length (concat (map snd (grouping ?kes))) = length items"
    using m len(2) by (metis size_mset)
  ultimately show ?thesis by blast
qed

lemma seoul_forecast_keys:
  "map (forecastDate host_utc) seoul_forecast_list = map Inr seoul_dates"
  by code_simp

lemma seoul_forecast_entries:
  "map (formatForecastData host_utc) seoul_forecast_list = map Inr seoul_entries"
  by code_simp

lemma seoul_dates_plain:
  "list_all (\<lambda>k. k \<notin> set object_prototype_names \<and> \<not> is_array_index k) seoul_dates"
  by code_simp

lemma seoul_dates_first: "first_occurrences seoul_dates = [''01/05/2024'', ''02/05/2024'']"
  by (simp add: seoul_dates_def)

text \<open>
  The theorem for the scenario of the specification: two items dated 2024-05-01 and one
  dated 2024-05-02, on a host in UTC.
\<close>

theorem forecast_grouped_by_date_in_input_order_witness:
  "map (forecastDate host_utc) seoul_forecast_list = map Inr seoul_dates
   \<and> map (formatForecastData host_utc) seoul_forecast_list = map Inr seoul_entries
   \<and> list_all (\<lambda>k. k \<notin> set object_prototype_names \<and> \<not> is_array_index k) seoul_dates
   \<and> (\<exists>groups.
         groupForecastByDate host_utc (JArr seoul_forecast_list)
           = Inr (JObj (map (\<lambda>g. (fst g, JArr (snd g))) groups))
         \<and> map fst groups = [''01/05/2024'', ''02/05/2024'']
         \<and> mset (concat (map snd groups)) = mset seoul_entries
         \<and> length (concat (map snd groups)) = length seoul_forecast_list)"
proof -
  have plain: "\<forall>k\<in>set seoul_dates. k \<notin> set object_prototype_names \<and> \<not> is_array_index k"
    using seoul_dates_plain by (simp only: list_all_iff)
  from forecast_grouped_by_date_in_input_order
    [OF seoul_forecast_keys seoul_forecast_entries plain]
  obtain groups where
    "groupForecastByDate host_utc (JArr seoul_forecast_list)
       = Inr (JObj (map (\<lambda>g. (fst g, JArr (snd g))) groups))"
    and "map fst groups = first_occurrences seoul_dates"
    and "mset (concat (map snd groups)) = mset seoul_entries"
    and "length (concat (map snd groups)) = length seoul_forecast_list"
    by (elim exE conjE)
  then have "\<exists>groups.
         groupForecastByDate host_utc (JArr seoul_forecast_list)
           = Inr (JObj (map (\<lambda>g. (fst g, JArr (snd g))) groups))
         \<and> map fst groups = [''01/05/2024'', ''02/05/2024'']
         \<and> mset (concat (map snd groups)) = mset seoul_entries
         \<and> length (concat (map snd groups)) = length seoul_forecast_list"
    unfolding seoul_dates_first by (intro exI [of _ groups] conjI)
  with seoul_forecast_keys seoul_forecast_entries seoul_dates_plain show ?thesis
    by (intro conjI)
qed

section \<open>What a call does to the cache\<close>

lemma getWeatherByCity_failure:
  assumes "getWeatherByCity rt up city now w = (Inl e, w1)"
  shows "cache w1 = cache w"
proof (cases "truthy (cache_get (cache w) (''weather_'' @ city) now)")
  case True
  with assms show ?thesis by (simp add: getWeatherByCity_hit)
next
  case False
  show ?thesis
    using assms unfolding getWeatherByCity_miss [OF False]
    by (auto simp: service_defs split: prod.splits sum.splits http_result.splits)
qed

lemma getFiveDayForecast_failure:
  assumes "getFiveDayForecast rt up city now w = (Inl e, w1)"
  shows "cache w1 = cache w"
proof (cases "truthy (cache_get (cache w) (''forecast_'' @ city) now)")
  case True
  with assms show ?thesis by (simp add: getFiveDayForecast_hit)
next
  case False
  show ?thesis
    using assms unfolding getFiveDayForecast_miss [OF False]
    by (auto simp: service_defs split: prod.splits sum.splits http_result.splits)
qed

lemma getWeatherByCity_cache:
  "cache (snd (getWeatherByCity rt up city now w)) = cache w
   \<or> (\<exists>v. is_current_report v
        \<and> cache (snd (getWeatherByCity rt up city now w))
            = (cache w)(''weather_'' @ city \<mapsto> (v, now + cacheTTL)))"
proof (cases "getWeatherByCity rt up city now w")
  case (Pair r w1)
  show ?thesis
  proof (cases r)
    case (Inl e)
    with Pair getWeatherByCity_failure show ?thesis by fastforce
  next
    case (Inr v)
    from getWeatherByCity_success [OF Pair [unfolded Inr]] show ?thesis
      unfolding Pair
      by (auto simp: cache_set_def dest: formatWeatherData_shape)
  qed
qed

lemma getFiveDayForecast_cache:
  "cache (snd (getFiveDayForecast rt up city now w)) = cache w
   \<or> (\<exists>v. is_grouped_forecast v
        \<and> cache (snd (getFiveDayForecast rt up city now w))
            = (cache w)(''forecast_'' @ city \<mapsto> (v, now + cacheTTL)))"
proof (cases "getFiveDayForecast rt up city now w")
  case (Pair r w1)
  show ?thesis
  proof (cases r)
    case (Inl e)
    with Pair getFiveDayForecast_failure show ?thesis by fastforce
  next
    case (Inr v)
    from getFiveDayForecast_success [OF Pair [unfolded Inr]] show ?thesis
      unfolding Pair
      by (auto simp: cache_set_def dest: groupForecastByDate_shape)
  qed
qed

lemma reachable_cache:
  assumes "reachable w" and "cache w k = Some (v, ex)"
  shows "(\<exists>city. k = ''weather_'' @ city \<and> is_current_report v)
       \<or> (\<exists>city. k = ''forecast_'' @ city \<and> is_grouped_forecast v)"
  using assms
proof (induction arbitrary: k v ex rule: reachable.induct)
  case start
  then show ?case by (simp add: empty_world_def)
next
  case (weather_call w rt up city now)
  let ?w' = "snd (getWeatherByCity rt up city now w)"
  from getWeatherByCity_cache [of rt up city now w]
  consider (same) "cache ?w' = cache w"
    | (stored) v' where "is_current_report v'"
        "cache ?w' = (cache w)(''weather_'' @ city \<mapsto> (v', now + cacheTTL))"
    by blast
  then show ?case
  proof cases
    case same
    with weather_call.prems have "cache w k = Some (v, ex)" by simp
    then show ?thesis by (rule weather_call.IH)
  next
    case stored
    show ?thesis
    proof (cases "k = ''weather_'' @ city")
      case True
      with weather_call.prems stored have "v = v'" by simp
      with stored(1) True show ?thesis by blast
    next
      case False
      with weather_call.prems stored have "cache w k = Some (v, ex)" by simp
      then show ?thesis by (rule weather_call.IH)
    qed
  qed
next
  case (forecast_call w rt up city now)
  let ?w' = "snd (getFiveDayForecast rt up city now w)"
  from getFiveDayForecast_cache [of rt up city now w]
  consider (same) "cache ?w' = cache w"
    | (stored) v' where "is_grouped_forecast v'"
        "cache ?w' = (cache w)(''forecast_'' @ city \<mapsto> (v', now + cacheTTL))"
    by blast
  then show ?case
  proof cases
    case same
    with forecast_call.prems have "cache w k = Some (v, ex)" by simp
    then show ?thesis by (rule forecast_call.IH)
  next
    case stored
    show ?thesis
    proof (cases "k = ''forecast_'' @ city")
      case True
      with forecast_call.prems stored have "v = v'" by simp
      with stored(1) True show ?thesis by blast
    next
      case False
      with forecast_call.prems stored have "cache w k = Some (v, ex)" by simp
      then show ?thesis by (rule forecast_call.IH)
    qed
  qed
qed

lemma report_is_not_grouped: "is_current_report v \<Longrightarrow> \<not> is_grouped_forecast v"
proof
  assume r: "is_current_report v" and g: "is_grouped_forecast v"
  from r obtain kvs where v: "v = JObj kvs" and s: "is_string (obj_lookup kvs ''currentTemp'')"
    by (cases v) (auto simp: is_current_report_def)
  from s obtain t where "map_of kvs ''currentTemp'' = Some (JStr t)"
    by (auto simp: is_string_def obj_lookup_def split: option.splits jsval.splits)
  then have "(''currentTemp'', JStr t) \<in> set kvs"
    by (rule map_of_SomeD)
  with g show False
    by (auto simp: v is_grouped_forecast_def is_entry_array_def list_all_iff)
qed

lemma seoul_second_operation:
  "getFiveDayForecast host_utc provider ''Seoul'' 10 seoul_weather_cached
     = (Inr seoul_grouped, seoul_both_cached)"
proof -
  have miss: "\<not> truthy (cache_get (cache seoul_weather_cached) (''forecast_'' @ ''Seoul'') 10)"
    by (simp add: seoul_weather_cached_def cache_get_def)
  have coords: "getCoordinatesByCity provider ''Seoul'' seoul_weather_cached
      = (Inr (seoul_lat, seoul_lon),
         seoul_weather_cached\<lparr>requests := requests seoul_weather_cached @ [Geocode ''Seoul'']\<rparr>)"
    by (simp add: getCoordinatesByCity_def httpService_get_def and_then_def seoul_geocode_def
          nullish_def obj_lookup_def)
  show ?thesis
    unfolding getFiveDayForecast_miss [OF miss] coords
    by (simp add: fetchWeatherData_Response seoul_forecast_list and_then_def
          seoul_forecast_grouped seoul_weather_cached_def seoul_both_cached_def
          cache_set_def cacheTTL_def fun_upd_twist del: groupForecastByDate.simps)
qed

lemma reachable_seoul_both_cached: "reachable seoul_both_cached"
proof -
  have "reachable (snd (getWeatherByCity host_utc provider ''Seoul'' 0 empty_world))"
    by (rule reachable.weather_call [OF reachable.start])
  then have "reachable seoul_weather_cached"
    by (simp only: seoul_weather_first_call snd_conv)
  then have "reachable (snd (getFiveDayForecast host_utc provider ''Seoul'' 10 seoul_weather_cached))"
    by (rule reachable.forecast_call)
  then show ?thesis
    by (simp only: seoul_second_operation snd_conv)
qed

text \<open>
  Claim C9. In every state that calls of the two operations produce from the empty cache,
  an entry under a key that starts with \<^verbatim>\<open>weather_\<close> holds a current-weather report and not
  a grouped forecast, an entry under a key that starts with \<^verbatim>\<open>forecast_\<close> holds a grouped
  forecast and not a report, and every key starts with one of the two.
\<close>

theorem cache_value_type_fixed_by_key_prefix:
  assumes "reachable w" and "cache w k = Some (v, ex)"
  shows "(prefix ''weather_'' k \<longrightarrow> is_current_report v \<and> \<not> is_grouped_forecast v)
       \<and> (prefix ''forecast_'' k \<longrightarrow> is_grouped_forecast v \<and> \<not> is_current_report v)
       \<and> (prefix ''weather_'' k \<or> prefix ''forecast_'' k)"
  using reachable_cache [OF assms] report_is_not_grouped [of v]
  by (auto simp: prefix_def)

text \<open>
  The theorem for the state after a call of each operation for Seoul, at instants 0 and 10.
\<close>

theorem cache_value_type_fixed_by_key_prefix_witness:
  "reachable seoul_both_cached
   \<and> cache seoul_both_cached ''weather_Seoul'' = Some (seoul_report, 300)
   \<and> cache seoul_both_cached ''forecast_Seoul'' = Some (seoul_grouped, 310)
   \<and> prefix ''weather_'' ''weather_Seoul'' \<and> prefix ''forecast_'' ''forecast_Seoul''
   \<and> is_current_report seoul_report \<and> \<not> is_grouped_forecast seoul_report
   \<and> is_grouped_forecast seoul_grouped \<and> \<not> is_current_report seoul_grouped"
proof -
  have weather: "cache seoul_both_cached ''weather_Seoul'' = Some (seoul_report, 300)"
    and forecast: "cache seoul_both_cached ''forecast_Seoul'' = Some (seoul_grouped, 310)"
    by (simp_all add: seoul_both_cached_def)
  have pre: "prefix ''weather_'' ''weather_Seoul''" "prefix ''forecast_'' ''forecast_Seoul''"
    by simp_all
  from cache_value_type_fixed_by_key_prefix [OF reachable_seoul_both_cached weather]
    cache_value_type_fixed_by_key_prefix [OF reachable_seoul_both_cached forecast]
    reachable_seoul_both_cached weather forecast pre
  show ?thesis by blast
qed

section \<open>Formatted fields\<close>

lemma text_field_Inr:
  "text_field rt ob k sfx = Inr v \<longleftrightarrow>
   (\<exists>x s. get_prop ob k = Inr x \<and> to_string rt x = Inr s \<and> v = JStr (s @ sfx))"
  by (auto simp: text_field_def str_field_Inr and_then_Inr)





lemma show_nat_small: "show_nat 0 = ''0''" "show_nat 60 = ''60''" "show_nat 2146 = ''2146''"
  by code_simp+

lemma number_to_string_small:
  "number_to_string rt (Fin 0) = ''0''" "number_to_string rt (Fin 60) = ''60''"
  by (simp_all add: number_to_string_def is_integral_def show_nat_small)

lemma rate_field_absent: "rate_field rt (with_default JUndefined (JObj [])) = Inr (JStr ''0mm/h'')"
  by (simp add: rate_field_def with_default_def get_prop_def nullish_def obj_lookup_def
        js_or_def and_then_def str_field_def number_to_string_small)

lemma toFixed_2_round:
  assumes "of_int n - 1 / 2 \<le> x * 100" and "x * 100 < of_int n + 1 / 2" and "0 \<le> x"
    and "x < 10 ^ 21"
  shows "toFixed_2 rt (Fin x)
       = (let m = show_nat (nat n); m' = replicate (3 - length m) (CHR ''0'') @ m
          in take (length m' - 2) m' @ ''.'' @ drop (length m' - 2) m')"
proof -
  have "\<lfloor>\<bar>x\<bar> * 100 + 1 / 2\<rfloor> = n"
    using assms(1-3) by (intro floor_unique) (simp_all add: abs_of_nonneg)
  moreover have "\<not> 10 ^ 21 \<le> \<bar>x\<bar>"
    using assms(3,4) by (simp add: abs_of_nonneg)
  ultimately show ?thesis
    using assms(3) by (simp add: toFixed_2_def Let_def del: One_nat_def)
qed

lemma report_property:
  assumes "formatWeatherData rt data = Inr report"
    and "(k, m) \<in> set (report_properties rt data)"
  shows "m = Inr (read_prop report k)"
proof -
  from assms(1) obtain kvs where report: "report = JObj kvs"
    and lit: "object_literal (report_properties rt data) = Inr (JObj kvs)"
    by (rule formatWeatherData_Inr)
  have "m = Inr (obj_lookup kvs k)"
    by (rule object_literal_property [OF lit _ assms(2)])
       (simp add: report_properties_keys distinct_report_keys)
  then show ?thesis by (simp add: report)
qed


lemma report_properties_mem:
  "(''currentTemp'', fixed_field rt (read_prop data ''main'') ''temp'' celsius)
     \<in> set (report_properties rt data)"
  "(''apparentTemp'', fixed_field rt (read_prop data ''main'') ''feels_like'' celsius)
     \<in> set (report_properties rt data)"
  "(''currentHumi'', text_field rt (read_prop data ''main'') ''humidity'' ''%'')
     \<in> set (report_properties rt data)"
  "(''minTemp'', fixed_field rt (read_prop data ''main'') ''temp_min'' celsius)
     \<in> set (report_properties rt data)"
  "(''maxTemp'', fixed_field rt (read_prop data ''main'') ''temp_max'' celsius)
     \<in> set (report_properties rt data)"
  "(''windSpeed'', fixed_field rt (read_prop data ''wind'') ''speed'' ''m/s'')
     \<in> set (report_properties rt data)"
  "(''rainfall'', rate_field rt (with_default (read_prop data ''rain'') (JObj [])))
     \<in> set (report_properties rt data)"
  "(''snowfall'', rate_field rt (with_default (read_prop data ''snow'') (JObj [])))
     \<in> set (report_properties rt data)"
  by (simp_all add: report_properties_def Let_def)


lemma toFixed_2_near_21_46:
  assumes "21455 / 1000 \<le> t" and "t < 21465 / 1000"
  shows "toFixed_2 rt (Fin t) = ''21.46''"
proof -
  have "toFixed_2 rt (Fin t)
      = (let m = show_nat (nat 2146); m' = replicate (3 - length m) (CHR ''0'') @ m
         in take (length m' - 2) m' @ ''.'' @ drop (length m' - 2) m')"
    using assms by (intro toFixed_2_round) simp_all
  also have "nat 2146 = 2146" by simp
  finally show ?thesis by (simp add: show_nat_small)
qed

text \<open>
  Claim C7. When the formatter returns a report for a payload whose temperature lies
  within half a hundredth of 21.46 (as 21.456 and the binary64 nearest to it do), whose
  humidity is 60 and which has no rain and no snow object, the report has the current
  temperature \<^verbatim>\<open>21.46\<close> followed by the Celsius sign, the humidity \<^verbatim>\<open>60%\<close>, and the
  rainfall and the snowfall \<^verbatim>\<open>0mm/h\<close>.
\<close>

theorem seoul_scenario_report_fields:
  assumes "formatWeatherData rt data = Inr report"
    and "get_prop (read_prop data ''main'') ''temp'' = Inr (JNum (Fin t))"
    and "21455 / 1000 \<le> t" and "t < 21465 / 1000"
    and "get_prop (read_prop data ''main'') ''humidity'' = Inr (JNum (Fin 60))"
    and "read_prop data ''rain'' = JUndefined" and "read_prop data ''snow'' = JUndefined"
  shows "read_prop report ''currentTemp'' = JStr (''21.46'' @ celsius)
       \<and> read_prop report ''currentHumi'' = JStr ''60%''
       \<and> read_prop report ''rainfall'' = JStr ''0mm/h''
       \<and> read_prop report ''snowfall'' = JStr ''0mm/h''"
proof (intro conjI)
  have "fixed_field rt (read_prop data ''main'') ''temp'' celsius
      = Inr (read_prop report ''currentTemp'')"
    by (rule report_property [OF assms(1) report_properties_mem(1)])
  then show "read_prop report ''currentTemp'' = JStr (''21.46'' @ celsius)"
    using assms(2) toFixed_2_near_21_46 [OF assms(3,4)]
    by (auto simp: fixed_field_Inr)
next
  have "text_field rt (read_prop data ''main'') ''humidity'' ''%''
      = Inr (read_prop report ''currentHumi'')"
    by (rule report_property [OF assms(1) report_properties_mem(3)])
  then show "read_prop report ''currentHumi'' = JStr ''60%''"
    using assms(5) by (auto simp: text_field_Inr number_to_string_small)
next
  have "rate_field rt (with_default (read_prop data ''rain'') (JObj []))
      = Inr (read_prop report ''rainfall'')"
    by (rule report_property [OF assms(1) report_properties_mem(7)])
  then show "read_prop report ''rainfall'' = JStr ''0mm/h''"
    by (simp add: assms(6) rate_field_absent)
next
  have "rate_field rt (with_default (read_prop data ''snow'') (JObj []))
      = Inr (read_prop report ''snowfall'')"
    by (rule report_property [OF assms(1) report_properties_mem(8)])
  then show "read_prop report ''snowfall'' = JStr ''0mm/h''"
    by (simp add: assms(7) rate_field_absent)
qed

text \<open>The theorem for the payload of the scenario, with the binary64 nearest to 21.456.\<close>

theorem seoul_scenario_report_fields_witness:
  "formatWeatherData host_utc seoul_current = Inr seoul_report
   \<and> get_prop (read_prop seoul_current ''main'') ''temp''
       = Inr (JNum (Fin (6039327100303835 / 2 ^ 48)))
   \<and> (21455 / 1000 :: rat) \<le> 6039327100303835 / 2 ^ 48
   \<and> (6039327100303835 / 2 ^ 48 :: rat) < 21465 / 1000
   \<and> get_prop (read_prop seoul_current ''main'') ''humidity'' = Inr (JNum (Fin 60))
   \<and> read_prop seoul_current ''rain'' = JUndefined
   \<and> read_prop seoul_current ''snow'' = JUndefined
   \<and> read_prop seoul_report ''currentTemp'' = JStr (''21.46'' @ celsius)
   \<and> read_prop seoul_report ''currentHumi'' = JStr ''60%''
   \<and> read_prop seoul_report ''rainfall'' = JStr ''0mm/h''
   \<and> read_prop seoul_report ''snowfall'' = JStr ''0mm/h''"
proof -
  have temp: "get_prop (read_prop seoul_current ''main'') ''temp''
      = Inr (JNum (Fin (6039327100303835 / 2 ^ 48)))"
    and humidity: "get_prop (read_prop seoul_current ''main'') ''humidity'' = Inr (JNum (Fin 60))"
    and rain: "read_prop seoul_current ''rain'' = JUndefined"
    and snow: "read_prop seoul_current ''snow'' = JUndefined"
    by (simp_all add: seoul_current_def get_prop_def nullish_def obj_lookup_def)
  have lower: "(21455 / 1000 :: rat) \<le> 6039327100303835 / 2 ^ 48"
    and upper: "(6039327100303835 / 2 ^ 48 :: rat) < 21465 / 1000"
    by simp_all
  from seoul_scenario_report_fields
    [OF seoul_current_formatted temp lower upper humidity rain snow]
    seoul_current_formatted temp lower upper humidity rain snow
  show ?thesis by (intro conjI) simp_all
qed













section \<open>Sunrise and sunset\<close>

lemma split_time:
  fixes t :: int
  shows "t = (t div 86400000) * 86400000 + ((t div 3600000) mod 24) * 3600000
          + ((t div 60000) mod 60) * 60000 + ((t div 1000) mod 60) * 1000 + t mod 1000"
proof -
  have a: "t mod (1000 * 60) = 1000 * (t div 1000 mod 60) + t mod 1000"
    by (rule zmod_zmult2_eq) simp
  have b: "t mod (60000 * 60) = 60000 * (t div 60000 mod 60) + t mod 60000"
    by (rule zmod_zmult2_eq) simp
  have c: "t mod (3600000 * 24) = 3600000 * (t div 3600000 mod 24) + t mod 3600000"
    by (rule zmod_zmult2_eq) simp
  have d: "t = 86400000 * (t div 86400000) + t mod 86400000"
    by simp
  have a': "t mod 60000 = 1000 * (t div 1000 mod 60) + t mod 1000" using a by simp
  have b': "t mod 3600000 = 60000 * (t div 60000 mod 60) + t mod 60000" using b by simp
  have c': "t mod 86400000 = 3600000 * (t div 3600000 mod 24) + t mod 3600000" using c by simp
  from a' b' c' d show ?thesis by linarith
qed

lemma time_of_day_parts:
  "MakeDate (Day t) (MakeTime (HourFromTime t + h) (MinFromTime t) (SecFromTime t) (msFromTime t))
     = t + h * msPerHour"
proof -
  define a where "a = t div 86400000"
  define b where "b = (t div 3600000) mod 24"
  define c where "c = (t div 60000) mod 60"
  define d where "d = (t div 1000) mod 60"
  define e where "e = t mod 1000"
  have "t = a * 86400000 + b * 3600000 + c * 60000 + d * 1000 + e"
    unfolding a_def b_def c_def d_def e_def by (rule split_time)
  then have "a * 86400000 + ((b + h) * 3600000 + c * 60000 + d * 1000 + e) = t + h * 3600000"
    by (simp add: algebra_simps)
  then show ?thesis
    by (simp only: MakeDate_def MakeTime_def Day_def HourFromTime_def MinFromTime_def
          SecFromTime_def msFromTime_def msPerDay_def msPerHour_def msPerMinute_def
          msPerSecond_def a_def b_def c_def d_def e_def)
qed

text \<open>
  On a host whose time zone is at the fixed offset \<open>z\<close> from UTC, the string is the
  rendering of the wall-clock time of the host nine hours after the instant: the time of
  UTC+9 only where \<open>z\<close> is zero.
\<close>

lemma formatUnixTime_fixed_offset:
  assumes "tza_utc rt = (\<lambda>t. z)" and "tza_local rt = (\<lambda>t. z)"
    and "\<bar>s\<bar> * 1000 + 9 * msPerHour \<le> 8640000000000000"
  shows "formatUnixTime rt (JNum (Fin (of_int s)))
       = Inr (datetime_text rt (s * 1000 + 9 * msPerHour + z))"
proof -
  have range: "\<bar>s * 1000\<bar> \<le> 8640000000000000" "\<bar>s * 1000 + 9 * msPerHour\<bar> \<le> 8640000000000000"
    using assms(3) by (simp_all add: msPerHour_def abs_if split: if_splits)
  have "\<bar>of_int s :: rat\<bar> * 1000 \<le> 2 ^ 53"
  proof -
    have "\<bar>s\<bar> * 1000 \<le> 2 ^ 53" using assms(3) by (simp add: msPerHour_def)
    then have "(of_int (\<bar>s\<bar> * 1000) :: rat) \<le> of_int (2 ^ 53)" by (simp only: of_int_le_iff)
    then show ?thesis by simp
  qed
  then have product: "times_1000 rt (Fin (of_int s)) = Fin (of_int (s * 1000))"
    by (simp add: times_1000_def is_integral_def)
  have "\<bar>of_int (s * 1000) :: rat\<bar> \<le> 8640000000000000"
    using range(1) by (metis of_int_abs of_int_le_iff of_int_numeral)
  then have date: "TimeClip (Fin (of_int (s * 1000))) = Some (s * 1000)"
    by (simp add: TimeClip_def del: of_int_mult)
  have set: "setHours rt (Some (s * 1000)) (Some (HourFromTime (s * 1000 + z) + 9))
      = Some (s * 1000 + 9 * msPerHour)"
    using range(2)
    by (simp add: setHours_def LocalTime_def UTC_def assms(1,2) time_of_day_parts
          TimeClip_int_def Let_def)
  show ?thesis
    by (simp add: formatUnixTime_def and_then_def product date getHours_def LocalTime_def
          assms(1) set toLocaleString_def Let_def del: of_int_mult)
qed

text \<open>
  Claim C8 on a host in Seoul: the sunrise of 1 May 2024, 06:00 Korean time, is rendered
  as 15:00, nine hours after the wall-clock time of the host; on a host in UTC it is
  rendered as 06:00.
\<close>

theorem sunrise_depends_on_host_time_zone:
  "formatUnixTime host_seoul (JNum (Fin 1714510800)) = Inr ''01/05/2024, 15:00:00''
   \<and> formatUnixTime host_utc (JNum (Fin 1714510800)) = Inr ''01/05/2024, 06:00:00''
   \<and> en_GB_datetime (1714510800 * 1000 + 9 * msPerHour) = ''01/05/2024, 06:00:00''"
  by code_simp

end
